theory Spec2Isabelle
  imports Main "HOL-Library.AList"
begin

section \<open>Data model\<close>

text \<open>
  The dashboard keeps no data of its own: projects and generated creatives are rows of a
  remote relational store, brand assets are objects of a remote bucket. Strings are
  \<^typ>\<open>string\<close>; a character stands for one code point below 256.
\<close>

text \<open>
  Modelled from the spec: the declarations of \<open>Project\<close> and \<open>GeneratedCreative\<close>
  (imported from \<open>lib/supabase\<close>) are not among the sources. The fields are those the
  components read and write. The row identifier of a creative, which the store assigns and
  the view only uses as a list key, is left out. A field whose name
  two records share, or which a constant of the library already has (\<open>id\<close>, \<open>name\<close>),
  carries a prefix.
\<close>

record Project =
  project_ident :: string
  user_id :: string
  project_name :: string
  brand_name :: string
  logo_url :: "string option"
  product_image_url :: "string option"
  created_at :: nat

record GeneratedCreative =
  project_id :: string
  variation_number :: int
  image_url :: string
  caption :: string
  generation_prompt :: string

text \<open>One element of the \<open>creatives\<close> array in the remote function's JSON answer.\<close>

record creative_payload =
  imageUrl :: string
  payload_caption :: string
  prompt :: string

text \<open>A thrown or returned error: an \<open>Error\<close> object with its message, or any other value.\<close>

datatype js_error = Error string | OtherError

record File =
  file_name :: string
  file_data :: string

text \<open>The remote store: two tables and the \<open>brand-assets\<close> bucket.\<close>

record store =
  projects :: "Project list"
  generated_creatives :: "GeneratedCreative list"
  brand_assets :: "(string \<times> File) list"

subsection \<open>Requests that leave the browser\<close>

record function_request =
  req_url :: string
  req_method :: string
  req_authorization :: string
  req_content_type :: string
  req_apikey :: string
  req_projectId :: string
  req_brandName :: string
  req_logoUrl :: "string option"
  req_productImageUrl :: "string option"
  req_variations :: nat

datatype remote_call =
    AuthGetSession
  | AuthGetUser
  | AuthSignOut
  | FunctionsPost function_request
  | TableSelect string
  | TableInsert string
  | TableUpdate string
  | TableDelete string
  | StorageUpload string string
  | ImageFetch string

text \<open>An archive: entries in order of first addition, one entry per name.\<close>

datatype archive_entry = TextEntry string | BlobEntry string

type_synonym archive = "(string \<times> archive_entry) list"

text \<open>
  Everything outside a component's own state: the remote store, the calls issued so far,
  the error console, the alerts shown, the downloads handed to the browser, and the
  browser's registry of object URLs (the live ones, and a counter for fresh ones).
\<close>

record world =
  remote :: store
  calls :: "remote_call list"
  console :: "string list"
  alerts :: "string list"
  downloads :: "(string \<times> archive) list"
  object_urls :: "string list"
  next_object_url :: nat

definition call :: "remote_call \<Rightarrow> world \<Rightarrow> world" where
  "call c w = w\<lparr>calls := calls w @ [c]\<rparr>"

definition console_error :: "string \<Rightarrow> world \<Rightarrow> world" where
  "console_error msg w = w\<lparr>console := console w @ [msg]\<rparr>"

definition alert :: "string \<Rightarrow> world \<Rightarrow> world" where
  "alert msg w = w\<lparr>alerts := alerts w @ [msg]\<rparr>"

section \<open>Numbers in template strings\<close>

text \<open>
  A template literal renders an integer in decimal, with a leading minus sign when it is
  negative.
\<close>

definition digit_char :: "nat \<Rightarrow> char" where
  "digit_char d = ''0123456789'' ! d"

fun string_of_nat :: "nat \<Rightarrow> string" where
  "string_of_nat n =
     (if n < 10 then [digit_char n]
      else string_of_nat (n div 10) @ [digit_char (n mod 10)])"

declare string_of_nat.simps [simp del]

definition js_number_string :: "int \<Rightarrow> string" where
  "js_number_string i =
     (if i < 0 then CHR ''-'' # string_of_nat (nat (- i)) else string_of_nat (nat i))"

section \<open>The creative generator view\<close>

record generator_state =
  generating :: bool
  creatives :: "GeneratedCreative list"
  loading :: bool
  progress :: nat
  downloadingZip :: bool

text \<open>The initial state of the component's hooks.\<close>

definition generator_init :: generator_state where
  "generator_init =
     \<lparr>generating = False, creatives = [], loading = True, progress = 0,
      downloadingZip = False\<rparr>"

subsection \<open>The store's side of the table calls\<close>

text \<open>
  A table call answers with a data/error pair and does not throw. A call that answers with
  an error has changed nothing.
\<close>

text \<open>
  The query \<open>loadCreatives\<close> builds on \<open>generated_creatives\<close>: all columns of the rows whose
  \<open>project_id\<close> equals the given value, with the \<open>order\<close> clause on \<open>variation_number\<close>
  (\<open>None\<close> stands for a query without the clause).
\<close>

datatype ordering = Ascending | Descending

record creatives_query =
  eq_project_id :: string
  order_variation_number :: "ordering option"

definition creatives_query :: "string \<Rightarrow> creatives_query" where
  "creatives_query pid = \<lparr>eq_project_id = pid, order_variation_number = Some Ascending\<rparr>"

text \<open>
  The store's answer to such a query: the matching rows, in stored order without an
  \<open>order\<close> clause and sorted as the clause asks otherwise; rows with equal keys keep their
  stored order.
\<close>

definition answer_creatives_query :: "creatives_query \<Rightarrow> store \<Rightarrow> GeneratedCreative list" where
  "answer_creatives_query q db =
     (let rows = filter (\<lambda>r. project_id r = eq_project_id q) (generated_creatives db)
      in case order_variation_number q of
           None \<Rightarrow> rows
         | Some Ascending \<Rightarrow> sort_key variation_number rows
         | Some Descending \<Rightarrow> sort_key (\<lambda>r. - variation_number r) rows)"

definition select_creatives :: "store \<Rightarrow> string \<Rightarrow> GeneratedCreative list" where
  "select_creatives db pid = answer_creatives_query (creatives_query pid) db"

definition delete_creatives :: "string \<Rightarrow> store \<Rightarrow> store" where
  "delete_creatives pid db =
     db\<lparr>generated_creatives := filter (\<lambda>r. project_id r \<noteq> pid) (generated_creatives db)\<rparr>"

definition insert_creatives :: "GeneratedCreative list \<Rightarrow> store \<Rightarrow> store" where
  "insert_creatives rows db = db\<lparr>generated_creatives := generated_creatives db @ rows\<rparr>"

subsection \<open>loadCreatives\<close>

definition loadCreatives ::
  "js_error option \<Rightarrow> Project \<Rightarrow> generator_state \<times> world \<Rightarrow> generator_state \<times> world" where
  "loadCreatives select_error p s =
     (let (gs, w) = s;
          w = call (TableSelect ''generated_creatives'') w
      in case select_error of
           Some e \<Rightarrow> (gs\<lparr>loading := False\<rparr>, console_error ''Error loading creatives:'' w)
         | None \<Rightarrow>
             (gs\<lparr>creatives := select_creatives (remote w) (project_ident p), loading := False\<rparr>,
              w))"

subsection \<open>generateCreatives\<close>

text \<open>What the outside world answers during one run of \<open>generateCreatives\<close>.\<close>

datatype function_response =
    FetchThrows js_error
  | NotOk
  | JsonThrows js_error
  | JsonBody "creative_payload list option"

record generate_env =
  supabaseUrl :: string
  supabaseAnonKey :: string
  session :: "string option"
  response :: function_response
  delete_error :: "js_error option"
  insert_error :: "js_error option"
  reload_error :: "js_error option"

definition generate_request :: "generate_env \<Rightarrow> string \<Rightarrow> Project \<Rightarrow> function_request" where
  "generate_request env access_token p =
     \<lparr>req_url = supabaseUrl env @ ''/functions/v1/generate-creatives'',
      req_method = ''POST'',
      req_authorization = ''Bearer '' @ access_token,
      req_content_type = ''application/json'',
      req_apikey = supabaseAnonKey env,
      req_projectId = project_ident p,
      req_brandName = brand_name p,
      req_logoUrl = logo_url p,
      req_productImageUrl = product_image_url p,
      req_variations = 12\<rparr>"

definition creativesToInsert :: "Project \<Rightarrow> creative_payload list \<Rightarrow> GeneratedCreative list" where
  "creativesToInsert p cs =
     map (\<lambda>(index, creative).
            \<lparr>project_id = project_ident p,
             variation_number = int index + 1,
             image_url = imageUrl creative,
             caption = payload_caption creative,
             generation_prompt = prompt creative\<rparr>)
         (enumerate 0 cs)"

text \<open>
  The body of the \<open>try\<close> block: the error that left it, if any, with the state reached.
  The answer of the delete is not inspected; the answer of the insert is.
\<close>

definition generateCreatives_try ::
  "generate_env \<Rightarrow> Project \<Rightarrow> generator_state \<times> world \<Rightarrow>
     js_error option \<times> generator_state \<times> world" where
  "generateCreatives_try env p s =
     (let (gs, w) = s;
          w = call AuthGetSession w
      in case session env of
           None \<Rightarrow> (Some (Error ''Not authenticated''), gs, w)
         | Some access_token \<Rightarrow>
             (let gs = gs\<lparr>progress := 20\<rparr>;
                  w = call (FunctionsPost (generate_request env access_token p)) w
              in case response env of
                   FetchThrows e \<Rightarrow> (Some e, gs, w)
                 | NotOk \<Rightarrow> (Some (Error ''Failed to generate creatives''), gs, w)
                 | JsonThrows e \<Rightarrow> (Some e, gs, w)
                 | JsonBody body \<Rightarrow>
                     (let gs = gs\<lparr>progress := 60\<rparr>;
                          w = call (TableDelete ''generated_creatives'') w;
                          w = (case delete_error env of
                                 None \<Rightarrow> w\<lparr>remote := delete_creatives (project_ident p) (remote w)\<rparr>
                               | Some e \<Rightarrow> w)
                      in case body of
                           None \<Rightarrow> (Some (Error ''TypeError''), gs, w)
                         | Some cs \<Rightarrow>
                             (let rows = creativesToInsert p cs;
                                  w = call (TableInsert ''generated_creatives'') w
                              in case insert_error env of
                                   Some e \<Rightarrow> (Some e, gs, w)
                                 | None \<Rightarrow>
                                     (let w = w\<lparr>remote := insert_creatives rows (remote w)\<rparr>;
                                          gs = gs\<lparr>progress := 100\<rparr>;
                                          (gs, w) = loadCreatives (reload_error env) p (gs, w)
                                      in (None, gs, w))))))"

definition generateCreatives ::
  "generate_env \<Rightarrow> Project \<Rightarrow> generator_state \<times> world \<Rightarrow> generator_state \<times> world" where
  "generateCreatives env p s =
     (let (gs, w) = s;
          gs = gs\<lparr>generating := True, progress := 0\<rparr>;
          (failure, gs, w) = generateCreatives_try env p (gs, w);
          w = (case failure of
                 None \<Rightarrow> w
               | Some e \<Rightarrow>
                   alert ''Failed to generate creatives. Please try again.''
                     (console_error ''Error generating creatives:'' w))
      in (gs\<lparr>generating := False, progress := 0\<rparr>, w))"

text \<open>A run failed when an error left its \<open>try\<close> block, and succeeded otherwise.\<close>

definition generate_failed ::
  "generate_env \<Rightarrow> Project \<Rightarrow> generator_state \<times> world \<Rightarrow> bool" where
  "generate_failed env p s = (fst (generateCreatives_try env p s) \<noteq> None)"

text \<open>The table as the delete call of a run leaves it.\<close>

definition after_delete :: "generate_env \<Rightarrow> Project \<Rightarrow> store \<Rightarrow> store" where
  "after_delete env p db =
     (case delete_error env of
        None \<Rightarrow> delete_creatives (project_ident p) db
      | Some e \<Rightarrow> db)"

subsection \<open>downloadAsZip\<close>

definition newline :: string where
  "newline = [CHR 0x0A]"

definition caption_entry :: "nat \<Rightarrow> GeneratedCreative \<Rightarrow> string" where
  "caption_entry index creative =
     ''Image '' @ string_of_nat (index + 1) @ '':'' @ newline @ caption creative @
     newline @ newline @ ''Prompt: '' @ generation_prompt creative @
     newline @ newline @ ''---'' @ newline @ newline"

definition captionsText :: "GeneratedCreative list \<Rightarrow> string" where
  "captionsText cs =
     concat (map (\<lambda>(index, creative). caption_entry index creative) (enumerate 0 cs))"

text \<open>Adding a file under a name the archive already has replaces that entry.\<close>

definition zip_file :: "string \<Rightarrow> archive_entry \<Rightarrow> archive \<Rightarrow> archive" where
  "zip_file entry_name data z = AList.update entry_name data z"

definition image_file_name :: "GeneratedCreative \<Rightarrow> string" where
  "image_file_name creative =
     ''creative_'' @ js_number_string (variation_number creative) @ ''.jpg''"

text \<open>The regular expression class \<open>\s\<close>, on code points below 256.\<close>

definition is_space :: "char \<Rightarrow> bool" where
  "is_space c \<longleftrightarrow>
     c \<in> set [CHR 0x09, CHR 0x0A, CHR 0x0B, CHR 0x0C, CHR 0x0D, CHR 0x20, CHR 0xA0]"

text \<open>\<open>s.replace(/\s+/g, '_')\<close>: every maximal run of white space becomes one underscore.\<close>

function replace_whitespace :: "string \<Rightarrow> string" where
  "replace_whitespace [] = []"
| "replace_whitespace (c # cs) =
     (if is_space c then CHR ''_'' # replace_whitespace (dropWhile is_space cs)
      else c # replace_whitespace cs)"
  by pat_completeness auto
termination
  by (relation "measure length") (auto simp: length_dropWhile_le less_Suc_eq_le)

definition download_name :: "Project \<Rightarrow> string" where
  "download_name p = replace_whitespace (project_name p) @ ''_creatives.zip''"

definition createObjectURL :: "world \<Rightarrow> string \<times> world" where
  "createObjectURL w =
     (let url = ''blob:'' @ string_of_nat (next_object_url w)
      in (url, w\<lparr>object_urls := object_urls w @ [url],
                 next_object_url := Suc (next_object_url w)\<rparr>))"

definition revokeObjectURL :: "string \<Rightarrow> world \<Rightarrow> world" where
  "revokeObjectURL url w = w\<lparr>object_urls := removeAll url (object_urls w)\<rparr>"

text \<open>
  What the outside world answers during one run of \<open>downloadAsZip\<close>: whether the import
  of the archive library throws, for the item at each index of the loop the blob its fetch
  delivers (\<open>None\<close> when the fetch or the reading of the blob throws), and whether
  generating the archive throws.
\<close>

record download_env =
  import_error :: "js_error option"
  fetch_image :: "nat \<Rightarrow> string option"
  archive_error :: "js_error option"

text \<open>The \<open>for\<close> loop over the indices \<open>i\<close>, \<open>i + 1\<close>, ... of the list, with its inner \<open>try\<close>.\<close>

fun fetch_images ::
  "(nat \<Rightarrow> string option) \<Rightarrow> nat \<Rightarrow> GeneratedCreative list \<Rightarrow> archive \<times> world \<Rightarrow>
     archive \<times> world" where
  "fetch_images fetch i [] (z, w) = (z, w)"
| "fetch_images fetch i (creative # rest) (z, w) =
     (let w = call (ImageFetch (image_url creative)) w
      in case fetch i of
           Some blob \<Rightarrow>
             fetch_images fetch (Suc i) rest
               (zip_file (image_file_name creative) (BlobEntry blob) z, w)
         | None \<Rightarrow>
             fetch_images fetch (Suc i) rest
               (z, console_error (''Failed to fetch image '' @ string_of_nat (i + 1) @ '':'') w))"

definition downloadAsZip_try ::
  "download_env \<Rightarrow> Project \<Rightarrow> generator_state \<times> world \<Rightarrow> js_error option \<times> world" where
  "downloadAsZip_try env p s =
     (let (gs, w) = s
      in case import_error env of
           Some e \<Rightarrow> (Some e, w)
         | None \<Rightarrow>
             (let z = zip_file ''captions.txt'' (TextEntry (captionsText (creatives gs))) [];
                  (z, w) = fetch_images (fetch_image env) 0 (creatives gs) (z, w)
              in case archive_error env of
                   Some e \<Rightarrow> (Some e, w)
                 | None \<Rightarrow>
                     (let (url, w) = createObjectURL w;
                          w = w\<lparr>downloads := downloads w @ [(download_name p, z)]\<rparr>;
                          w = revokeObjectURL url w
                      in (None, w))))"

definition downloadAsZip ::
  "download_env \<Rightarrow> Project \<Rightarrow> generator_state \<times> world \<Rightarrow> generator_state \<times> world" where
  "downloadAsZip env p s =
     (let (gs, w) = s;
          gs = gs\<lparr>downloadingZip := True\<rparr>;
          (failure, w) = downloadAsZip_try env p (gs, w);
          w = (case failure of
                 None \<Rightarrow> w
               | Some e \<Rightarrow>
                   alert ''Failed to download zip file. Please try again.''
                     (console_error ''Error creating zip:'' w))
      in (gs\<lparr>downloadingZip := False\<rparr>, w))"

definition download_failed ::
  "download_env \<Rightarrow> Project \<Rightarrow> generator_state \<times> world \<Rightarrow> bool" where
  "download_failed env p s = (fst (downloadAsZip_try env p s) \<noteq> None)"

text \<open>The items of a list whose fetch delivers a blob, with the blob, the loop starting at index \<open>i\<close>.\<close>

fun fetched :: "(nat \<Rightarrow> string option) \<Rightarrow> nat \<Rightarrow> GeneratedCreative list \<Rightarrow>
    (GeneratedCreative \<times> string) list" where
  "fetched fetch i [] = []"
| "fetched fetch i (creative # rest) =
     (case fetch i of
        Some blob \<Rightarrow> (creative, blob) # fetched fetch (Suc i) rest
      | None \<Rightarrow> fetched fetch (Suc i) rest)"

text \<open>The indices of the loop, from \<open>i\<close> on, at which the fetch throws.\<close>

definition failed_indices :: "(nat \<Rightarrow> string option) \<Rightarrow> nat \<Rightarrow> nat \<Rightarrow> nat list" where
  "failed_indices fetch i n = filter (\<lambda>k. fetch k = None) [i..<i + n]"

text \<open>The archive that holds a manifest and then receives the images of the given items.\<close>

definition archive_of :: "string \<Rightarrow> (GeneratedCreative \<times> string) list \<Rightarrow> archive" where
  "archive_of manifest items =
     foldl (\<lambda>z (creative, blob). zip_file (image_file_name creative) (BlobEntry blob) z)
       (zip_file ''captions.txt'' (TextEntry manifest) []) items"

definition fetch_failure_log :: "nat \<Rightarrow> string" where
  "fetch_failure_log i = ''Failed to fetch image '' @ string_of_nat (i + 1) @ '':''"

subsection \<open>The grid of cards\<close>

text \<open>
  What the view renders for the list: nothing while it is loading, else one card per
  creative, in list order, with the image, its alternative text, the badge, the caption and
  the name of the single download.
\<close>

record card =
  card_image :: string
  card_alt :: string
  card_badge :: string
  card_caption :: string
  card_download :: string

definition render_cards :: "generator_state \<Rightarrow> card list" where
  "render_cards gs =
     (if loading gs then []
      else map (\<lambda>creative.
                  \<lparr>card_image = image_url creative,
                   card_alt = ''Creative '' @ js_number_string (variation_number creative),
                   card_badge = ''#'' @ js_number_string (variation_number creative),
                   card_caption = caption creative,
                   card_download = image_file_name creative\<rparr>)
             (creatives gs))"

subsection \<open>The views of the generator as a machine\<close>

datatype generator_action =
    LoadCreatives "js_error option"
  | GenerateCreatives generate_env
  | DownloadAsZip download_env

fun generator_step ::
  "Project \<Rightarrow> generator_state \<times> world \<Rightarrow> generator_action \<Rightarrow> generator_state \<times> world" where
  "generator_step p s (LoadCreatives e) = loadCreatives e p s"
| "generator_step p s (GenerateCreatives env) = generateCreatives env p s"
| "generator_step p s (DownloadAsZip env) = downloadAsZip env p s"

section \<open>The project form\<close>

record form_state =
  form_name :: string
  brandName :: string
  logoFile :: "File option"
  productFile :: "File option"
  logoPreview :: string
  productPreview :: string
  form_loading :: bool
  form_error :: string

definition form_init :: form_state where
  "form_init =
     \<lparr>form_name = [], brandName = [], logoFile = None, productFile = None,
      logoPreview = [], productPreview = [], form_loading = False, form_error = []\<rparr>"

definition handleLogoSelect :: "File \<Rightarrow> form_state \<times> world \<Rightarrow> form_state \<times> world" where
  "handleLogoSelect file s =
     (let (fs, w) = s;
          (url, w) = createObjectURL w
      in (fs\<lparr>logoFile := Some file, logoPreview := url\<rparr>, w))"

definition handleProductSelect :: "File \<Rightarrow> form_state \<times> world \<Rightarrow> form_state \<times> world" where
  "handleProductSelect file s =
     (let (fs, w) = s;
          (url, w) = createObjectURL w
      in (fs\<lparr>productFile := Some file, productPreview := url\<rparr>, w))"

text \<open>The two \<open>onClear\<close> handlers the form passes to its upload fields.\<close>

definition logo_onClear :: "form_state \<times> world \<Rightarrow> form_state \<times> world" where
  "logo_onClear s = (let (fs, w) = s in (fs\<lparr>logoFile := None, logoPreview := []\<rparr>, w))"

definition product_onClear :: "form_state \<times> world \<Rightarrow> form_state \<times> world" where
  "product_onClear s =
     (let (fs, w) = s in (fs\<lparr>productFile := None, productPreview := []\<rparr>, w))"

subsection \<open>handleSubmit\<close>

text \<open>
  What the outside world answers during one submit: the signed-in user's id, the clock at
  each upload, the answers of the uploads and of the insert, the public URL of a path, and
  the identifier and timestamp the store gives the new row.
\<close>

record submit_env =
  user :: "string option"
  now_logo :: nat
  now_product :: nat
  logo_upload_error :: "js_error option"
  product_upload_error :: "js_error option"
  publicUrl :: "string \<Rightarrow> string"
  project_insert_error :: "js_error option"
  new_ident :: string
  new_created_at :: nat

text \<open>
  One of the two upload blocks: nothing without a file; otherwise the upload under
  \<open>user/now-name\<close>, the error it answers with thrown, else the public URL of the path.
\<close>

definition upload_asset ::
  "string \<Rightarrow> nat \<Rightarrow> js_error option \<Rightarrow> (string \<Rightarrow> string) \<Rightarrow> File option \<Rightarrow> world \<Rightarrow>
     js_error option \<times> string \<times> world" where
  "upload_asset uid now upload_error public file w =
     (case file of
        None \<Rightarrow> (None, [], w)
      | Some f \<Rightarrow>
          (let path = uid @ ''/'' @ string_of_nat now @ ''-'' @ file_name f;
               w = call (StorageUpload ''brand-assets'' path) w
           in case upload_error of
                Some e \<Rightarrow> (Some e, [], w)
              | None \<Rightarrow>
                  (None, public path,
                   w\<lparr>remote := (remote w)\<lparr>brand_assets := brand_assets (remote w) @ [(path, f)]\<rparr>\<rparr>)))"

text \<open>\<open>s || null\<close> on a string.\<close>

definition or_null :: "string \<Rightarrow> string option" where
  "or_null s = (if s = [] then None else Some s)"

definition insert_project :: "Project \<Rightarrow> store \<Rightarrow> store" where
  "insert_project row db = db\<lparr>projects := projects db @ [row]\<rparr>"

definition handleSubmit_try ::
  "submit_env \<Rightarrow> form_state \<times> world \<Rightarrow> js_error option \<times> world" where
  "handleSubmit_try env s =
     (let (fs, w) = s;
          w = call AuthGetUser w
      in case user env of
           None \<Rightarrow> (Some (Error ''Not authenticated''), w)
         | Some uid \<Rightarrow>
             (case upload_asset uid (now_logo env) (logo_upload_error env) (publicUrl env)
                     (logoFile fs) w of
                (Some e, _, w) \<Rightarrow> (Some e, w)
              | (None, logoUrl, w) \<Rightarrow>
                  (case upload_asset uid (now_product env) (product_upload_error env)
                          (publicUrl env) (productFile fs) w of
                     (Some e, _, w) \<Rightarrow> (Some e, w)
                   | (None, productUrl, w) \<Rightarrow>
                       (let w = call (TableInsert ''projects'') w
                        in case project_insert_error env of
                             Some e \<Rightarrow> (Some e, w)
                           | None \<Rightarrow>
                               (None,
                                w\<lparr>remote :=
                                    insert_project
                                      \<lparr>project_ident = new_ident env,
                                       user_id = uid,
                                       project_name = form_name fs,
                                       brand_name = brandName fs,
                                       logo_url = or_null logoUrl,
                                       product_image_url = or_null productUrl,
                                       created_at = new_created_at env\<rparr>
                                      (remote w)\<rparr>)))))"

text \<open>The result says whether \<open>onSuccess\<close> was called.\<close>

definition handleSubmit ::
  "submit_env \<Rightarrow> form_state \<times> world \<Rightarrow> bool \<times> form_state \<times> world" where
  "handleSubmit env s =
     (let (fs, w) = s;
          fs = fs\<lparr>form_loading := True, form_error := []\<rparr>;
          (failure, w) = handleSubmit_try env (fs, w);
          fs = (case failure of
                  None \<Rightarrow> fs
                | Some (Error message) \<Rightarrow> fs\<lparr>form_error := message\<rparr>
                | Some OtherError \<Rightarrow> fs\<lparr>form_error := ''Failed to create project''\<rparr>)
      in (failure = None, fs\<lparr>form_loading := False\<rparr>, w))"

section \<open>The dashboard\<close>

record dashboard_state =
  dash_projects :: "Project list"
  selectedProject :: "Project option"
  showNewProject :: bool
  dash_loading :: bool

definition select_projects :: "store \<Rightarrow> Project list" where
  "select_projects db = sort_key (\<lambda>p. - int (created_at p)) (projects db)"

definition loadProjects ::
  "js_error option \<Rightarrow> dashboard_state \<times> world \<Rightarrow> dashboard_state \<times> world" where
  "loadProjects select_error s =
     (let (ds, w) = s;
          w = call (TableSelect ''projects'') w
      in case select_error of
           Some e \<Rightarrow> (ds\<lparr>dash_loading := False\<rparr>, console_error ''Error loading projects:'' w)
         | None \<Rightarrow> (ds\<lparr>dash_projects := select_projects (remote w), dash_loading := False\<rparr>, w))"

definition handleProjectCreated ::
  "js_error option \<Rightarrow> dashboard_state \<times> world \<Rightarrow> dashboard_state \<times> world" where
  "handleProjectCreated select_error s =
     (let (ds, w) = s in loadProjects select_error (ds\<lparr>showNewProject := False\<rparr>, w))"

definition handleLogout :: "world \<Rightarrow> world" where
  "handleLogout w = call AuthSignOut w"

section \<open>Sequences of actions\<close>

text \<open>
  Every action of the components above, with the state of the component it runs in and the
  answers of the outside world. A submit that succeeds calls the dashboard's
  \<open>handleProjectCreated\<close>.
\<close>

datatype ui_action =
    DoLoadProjects "js_error option" dashboard_state
  | DoSubmit submit_env form_state "js_error option" dashboard_state
  | DoLogoSelect File form_state
  | DoProductSelect File form_state
  | DoLogoClear form_state
  | DoProductClear form_state
  | DoLoadCreatives "js_error option" Project generator_state
  | DoGenerateCreatives generate_env Project generator_state
  | DoDownloadAsZip download_env Project generator_state
  | DoLogout

fun ui_step :: "world \<Rightarrow> ui_action \<Rightarrow> world" where
  "ui_step w (DoLoadProjects e ds) = snd (loadProjects e (ds, w))"
| "ui_step w (DoSubmit env fs e ds) =
     (case handleSubmit env (fs, w) of
        (True, fs, w) \<Rightarrow> snd (handleProjectCreated e (ds, w))
      | (False, fs, w) \<Rightarrow> w)"
| "ui_step w (DoLogoSelect file fs) = snd (handleLogoSelect file (fs, w))"
| "ui_step w (DoProductSelect file fs) = snd (handleProductSelect file (fs, w))"
| "ui_step w (DoLogoClear fs) = snd (logo_onClear (fs, w))"
| "ui_step w (DoProductClear fs) = snd (product_onClear (fs, w))"
| "ui_step w (DoLoadCreatives e p gs) = snd (loadCreatives e p (gs, w))"
| "ui_step w (DoGenerateCreatives env p gs) = snd (generateCreatives env p (gs, w))"
| "ui_step w (DoDownloadAsZip env p gs) = snd (downloadAsZip env p (gs, w))"
| "ui_step w DoLogout = handleLogout w"

definition is_submit :: "ui_action \<Rightarrow> bool" where
  "is_submit a = (case a of DoSubmit env fs e ds \<Rightarrow> True | _ \<Rightarrow> False)"

text \<open>The calls issued between two states of the world.\<close>

definition issued :: "world \<Rightarrow> world \<Rightarrow> remote_call list" where
  "issued w w' = drop (length (calls w)) (calls w')"

definition is_function_post :: "remote_call \<Rightarrow> bool" where
  "is_function_post c = (case c of FunctionsPost r \<Rightarrow> True | _ \<Rightarrow> False)"

text \<open>The calls that write to a table, and the table they write to.\<close>

definition modifies :: "string \<Rightarrow> remote_call \<Rightarrow> bool" where
  "modifies t c = (c = TableUpdate t \<or> c = TableDelete t)"

text \<open>
  Between two states of the world the \<open>projects\<close> table has only grown at its end, by at
  most \<open>n\<close> rows, and the calls issued in between hold no update and no delete on that
  table and at most \<open>n\<close> inserts into it.
\<close>

definition projects_kept :: "nat \<Rightarrow> world \<Rightarrow> world \<Rightarrow> bool" where
  "projects_kept n w w' \<longleftrightarrow>
     (\<exists>new cs.
        projects (remote w') = projects (remote w) @ new \<and> length new \<le> n \<and>
        calls w' = calls w @ cs \<and>
        filter (modifies ''projects'') cs = [] \<and>
        length (filter (\<lambda>c. c = TableInsert ''projects'') cs) \<le> n)"

section \<open>Concrete inputs\<close>

definition example_file :: File where
  "example_file = \<lparr>file_name = ''logo.png'', file_data = ''png''\<rparr>"


definition example_project :: Project where
  "example_project =
     \<lparr>project_ident = ''p1'', user_id = ''u1'', project_name = ''Summer Campaign 2024'',
      brand_name = ''Nike'', logo_url = None, product_image_url = None, created_at = 7\<rparr>"

definition example_row :: "int \<Rightarrow> string \<Rightarrow> GeneratedCreative" where
  "example_row n tag =
     \<lparr>project_id = ''p1'', variation_number = n, image_url = tag @ ''.jpg'',
      caption = tag @ '' caption'', generation_prompt = tag @ '' prompt''\<rparr>"

definition example_payload :: "string \<Rightarrow> creative_payload" where
  "example_payload tag =
     \<lparr>imageUrl = tag @ ''.jpg'', payload_caption = tag @ '' caption'',
      prompt = tag @ '' prompt''\<rparr>"

definition example_world :: world where
  "example_world =
     \<lparr>remote = \<lparr>projects = [example_project],
                generated_creatives = [example_row 1 ''old''],
                brand_assets = []\<rparr>,
      calls = [], console = [], alerts = [], downloads = [], object_urls = [],
      next_object_url = 0\<rparr>"

text \<open>A run in which every remote call answers without error.\<close>

definition example_env :: generate_env where
  "example_env =
     \<lparr>supabaseUrl = ''https://x.supabase.co'', supabaseAnonKey = ''anon'',
      session = Some ''tok'', response = JsonBody (Some [example_payload ''new'']),
      delete_error = None, insert_error = None, reload_error = None\<rparr>"

definition example_download_env :: "(nat \<Rightarrow> string option) \<Rightarrow> download_env" where
  "example_download_env fetch =
     \<lparr>import_error = None, fetch_image = fetch, archive_error = None\<rparr>"

text \<open>A store that holds the project's creatives out of order, and one of another project.\<close>

definition example_world_b :: world where
  "example_world_b =
     example_world
       \<lparr>remote := \<lparr>projects = [example_project],
                    generated_creatives =
                      [example_row 2 ''b'',
                       (example_row 1 ''x'')\<lparr>project_id := ''p2''\<rparr>,
                       example_row 1 ''a''],
                    brand_assets = []\<rparr>\<rparr>"

definition example_creatives :: "GeneratedCreative list" where
  "example_creatives = [example_row 1 ''a'', example_row 2 ''b'', example_row 3 ''c'']"

definition example_view :: generator_state where
  "example_view = generator_init\<lparr>creatives := example_creatives\<rparr>"

text \<open>Fetches of which the second throws.\<close>

definition example_fetch :: "nat \<Rightarrow> string option" where
  "example_fetch k = (if k = 1 then None else Some ''blob'')"

section \<open>Properties of generateCreatives\<close>

lemma select_creatives_eq:
  "select_creatives db pid =
     sort_key variation_number (filter (\<lambda>r. project_id r = pid) (generated_creatives db))"
  by (simp add: select_creatives_def creatives_query_def answer_creatives_query_def)

lemma generateCreatives_try_succeeds_iff:
  "fst (generateCreatives_try env p (gs, w)) = None \<longleftrightarrow>
     (\<exists>t cs. session env = Some t \<and> response env = JsonBody (Some cs) \<and> insert_error env = None)"
  by (simp add: generateCreatives_try_def Let_def loadCreatives_def
      split: option.splits function_response.splits prod.splits)

lemma generate_failed_iff:
  "generate_failed env p (gs, w) \<longleftrightarrow>
     \<not> (\<exists>t cs. session env = Some t \<and> response env = JsonBody (Some cs) \<and> insert_error env = None)"
  unfolding generate_failed_def generateCreatives_try_succeeds_iff by simp

lemmas generate_defs =
  generateCreatives_def generateCreatives_try_def Let_def loadCreatives_def after_delete_def
  call_def console_error_def alert_def

lemma remote_generateCreatives_success:
  assumes "session env = Some t" "response env = JsonBody (Some cs)" "insert_error env = None"
  shows "remote (snd (generateCreatives env p (gs, w))) =
      insert_creatives (creativesToInsert p cs) (after_delete env p (remote w))"
  using assms
  by (simp add: generate_defs split: option.splits)

lemma variation_number_creativesToInsert:
  "map variation_number (creativesToInsert p cs) = map int [1..<Suc (length cs)]"
proof (rule nth_equalityI)
  show "length (map variation_number (creativesToInsert p cs)) = length (map int [1..<Suc (length cs)])"
    by (simp add: creativesToInsert_def del: upt_Suc)
next
  fix i assume "i < length (map variation_number (creativesToInsert p cs))"
  then have i: "i < length cs" by (simp add: creativesToInsert_def)
  then have "map variation_number (creativesToInsert p cs) ! i = int i + 1"
    by (simp add: creativesToInsert_def nth_enumerate_eq)
  moreover from i have "map int [1..<Suc (length cs)] ! i = int i + 1"
    by (simp del: upt_Suc)
  ultimately show "map variation_number (creativesToInsert p cs) ! i = map int [1..<Suc (length cs)] ! i"
    by simp
qed

lemma project_id_creativesToInsert:
  "r \<in> set (creativesToInsert p cs) \<Longrightarrow> project_id r = project_ident p"
  by (auto simp: creativesToInsert_def)

lemma sorted_creativesToInsert: "sorted (map variation_number (creativesToInsert p cs))"
  unfolding variation_number_creativesToInsert
  by (simp add: sorted_map del: upt_Suc) 

lemma select_after_replace:
  "select_creatives (insert_creatives (creativesToInsert p cs) (delete_creatives (project_ident p) db)) (project_ident p)
    = creativesToInsert p cs"
proof -
  have "filter (\<lambda>r. project_id r = project_ident p) (creativesToInsert p cs) = creativesToInsert p cs"
    by (simp add: project_id_creativesToInsert)
  moreover have "filter (\<lambda>r. project_id r = project_ident p) (filter (\<lambda>r. project_id r \<noteq> project_ident p) xs) = []" for xs
    by (induction xs) auto
  ultimately show ?thesis
    by (simp add: select_creatives_eq insert_creatives_def delete_creatives_def
        sort_key_id_if_sorted sorted_creativesToInsert)
qed

text \<open>
  Claim C1 (a successful run replaces the project's stored batch, never appends). The
  answer of the delete call is not inspected, unlike the answers of the insert and of the
  selects. Evaluated on a store holding one prior creative of the project, with a delete
  that answers with an error and an insert that succeeds: the run does not fail, shows no
  alert, and the project's stored rows are the prior creative followed by the new one.
\<close>

theorem generateCreatives_unchecked_delete_appends:
  "let env = example_env\<lparr>delete_error := Some OtherError\<rparr>;
       s' = generateCreatives env example_project (generator_init, example_world)
   in \<not> generate_failed env example_project (generator_init, example_world) \<and>
      alerts (snd s') = [] \<and>
      generated_creatives (remote (snd s')) = [example_row 1 ''old'', example_row 1 ''new''] \<and>
      creatives (fst s') = [example_row 1 ''old'', example_row 1 ''new'']"
  by (simp add: generate_failed_iff generate_defs example_env_def example_world_def
      example_project_def generator_init_def example_row_def example_payload_def
      creativesToInsert_def insert_creatives_def select_creatives_eq)

lemma calls_generateCreatives:
  "calls (snd (generateCreatives env p (gs, w))) = calls w @
     (case session env of
        None \<Rightarrow> [AuthGetSession]
      | Some t \<Rightarrow>
          AuthGetSession # FunctionsPost (generate_request env t p) #
          (case response env of
             JsonBody b \<Rightarrow>
               TableDelete ''generated_creatives'' #
               (case b of
                  None \<Rightarrow> []
                | Some cs \<Rightarrow>
                    TableInsert ''generated_creatives'' #
                    (case insert_error env of
                       None \<Rightarrow> [TableSelect ''generated_creatives'']
                     | Some e \<Rightarrow> []))
           | _ \<Rightarrow> []))"
  by (auto simp: generate_defs split: option.splits function_response.splits)

lemma remote_generateCreatives_failure:
  assumes "generate_failed env p (gs, w)"
  shows "remote (snd (generateCreatives env p (gs, w))) =
     (case session env of
        None \<Rightarrow> remote w
      | Some t \<Rightarrow>
          (case response env of
             JsonBody b \<Rightarrow> after_delete env p (remote w)
           | _ \<Rightarrow> remote w))"
  using assms unfolding generate_failed_iff
  by (auto simp: generate_defs split: option.splits function_response.splits)

lemma effects_generateCreatives_failure:
  assumes "generate_failed env p (gs, w)"
  shows "alerts (snd (generateCreatives env p (gs, w))) =
           alerts w @ [''Failed to generate creatives. Please try again.'']"
    and "console (snd (generateCreatives env p (gs, w))) =
           console w @ [''Error generating creatives:'']"
    and "creatives (fst (generateCreatives env p (gs, w))) = creatives gs"
  using assms unfolding generate_failed_iff
  by (auto simp: generate_defs split: option.splits function_response.splits)

lemma flags_generateCreatives:
  "generating (fst (generateCreatives env p (gs, w))) = False"
  "progress (fst (generateCreatives env p (gs, w))) = 0"
  by (simp_all add: generateCreatives_def Let_def split: prod.splits)

text \<open>
  Claim C5 (a failing run is caught, logged and alerted, with no retry and no rollback).
  A run that fails logs one error and shows the one generic alert, leaves the view's list
  alone and its flags reset, and issues no remote call twice. The store is left either
  untouched or as the delete call left it: when the delete has taken effect and the run
  fails afterwards (the insert answers with an error, or the body has no list), the
  project's prior rows are gone and nothing is stored for the project.
\<close>

theorem generateCreatives_failure_no_rollback:
  assumes "generate_failed env p (gs, w)" and "generateCreatives env p (gs, w) = (gs', w')"
  shows "alerts w' = alerts w @ [''Failed to generate creatives. Please try again.''] \<and>
         console w' = console w @ [''Error generating creatives:''] \<and>
         generating gs' = False \<and> progress gs' = 0 \<and> creatives gs' = creatives gs \<and>
         distinct (issued w w') \<and>
         (remote w' = remote w \<or> remote w' = after_delete env p (remote w)) \<and>
         (session env \<noteq> None \<and> (\<exists>b. response env = JsonBody b) \<and> delete_error env = None \<longrightarrow>
            generated_creatives (remote w') =
              filter (\<lambda>r. project_id r \<noteq> project_ident p) (generated_creatives (remote w)) \<and>
            select_creatives (remote w') (project_ident p) = [])"
proof -
  have w': "w' = snd (generateCreatives env p (gs, w))" and gs': "gs' = fst (generateCreatives env p (gs, w))"
    using assms(2) by simp_all
  have "distinct (issued w w')"
    unfolding issued_def w' calls_generateCreatives
    by (simp split: option.splits function_response.splits)
  moreover have "remote w' = remote w \<or> remote w' = after_delete env p (remote w)"
    unfolding w' remote_generateCreatives_failure [OF assms(1)]
    by (simp split: option.splits function_response.splits)
  moreover have "generated_creatives (remote w') =
              filter (\<lambda>r. project_id r \<noteq> project_ident p) (generated_creatives (remote w)) \<and>
            select_creatives (remote w') (project_ident p) = []"
    if "session env \<noteq> None" "\<exists>b. response env = JsonBody b" "delete_error env = None"
  proof -
    have "remote w' = delete_creatives (project_ident p) (remote w)"
      using that unfolding w' remote_generateCreatives_failure [OF assms(1)]
      by (auto simp: after_delete_def)
    then show ?thesis
      by (simp add: delete_creatives_def select_creatives_eq)
  qed
  ultimately show ?thesis
    using effects_generateCreatives_failure [OF assms(1)] flags_generateCreatives [of env p gs w]
    unfolding w' gs' by simp
qed

text \<open>
  What a successful run stores: it asked the remote function for 12 variations, received a
  list \<open>cs\<close> of \<open>N\<close> creatives and appended to the table, as the delete call left it, one
  row per creative whose variation numbers are \<open>1, 2, ..., N\<close> in list order; when the
  delete took effect, these are the variation numbers of all the rows stored for the
  project.
\<close>

lemma successful_run_inserts_dense_numbers:
  assumes "\<not> generate_failed env p (gs, w)" and "generateCreatives env p (gs, w) = (gs', w')"
  shows "\<exists>t cs. session env = Some t \<and> req_variations (generate_request env t p) = 12 \<and>
           response env = JsonBody (Some cs) \<and>
           generated_creatives (remote w') =
             generated_creatives (after_delete env p (remote w)) @ creativesToInsert p cs \<and>
           map variation_number (creativesToInsert p cs) = map int [1..<Suc (length cs)] \<and>
           (delete_error env = None \<longrightarrow>
              map variation_number (select_creatives (remote w') (project_ident p)) =
                map int [1..<Suc (length cs)])"
proof -
  from assms(1) obtain t cs where
    ok: "session env = Some t" "response env = JsonBody (Some cs)" "insert_error env = None"
    unfolding generate_failed_iff by blast
  have w': "remote w' = insert_creatives (creativesToInsert p cs) (after_delete env p (remote w))"
    using remote_generateCreatives_success [OF ok, of p gs w] assms(2) by simp
  have "map variation_number (select_creatives (remote w') (project_ident p)) =
          map int [1..<Suc (length cs)]" if "delete_error env = None"
    using that unfolding w'
    by (simp add: after_delete_def select_after_replace variation_number_creativesToInsert del: upt_Suc)
  then show ?thesis
    using ok w' variation_number_creativesToInsert [of p cs]
    by (simp add: generate_request_def insert_creatives_def del: upt_Suc)
qed

lemma fields_creativesToInsert:
  "map (\<lambda>r. (image_url r, caption r, generation_prompt r)) (creativesToInsert p cs) =
   map (\<lambda>c. (imageUrl c, payload_caption c, prompt c)) cs"
  by (rule nth_equalityI) (simp_all add: creativesToInsert_def nth_enumerate_eq)

text \<open>
  Claim C6 (one call of the remote function, with the session's bearer token; the three
  fields of each returned element are persisted). Without a session the run fails, posts
  nothing and leaves the store alone. With a session there is exactly one post, carrying
  \<open>Bearer\<close> and the access token; and when the run succeeds, the rows appended to the
  table carry the image URL, caption and prompt of the elements of the returned list, in
  order.
\<close>

theorem generateCreatives_remote_function:
  assumes "generateCreatives env p (gs, w) = (gs', w')"
  shows "case session env of
           None \<Rightarrow>
             generate_failed env p (gs, w) \<and> filter is_function_post (issued w w') = [] \<and>
             remote w' = remote w
         | Some t \<Rightarrow>
             filter is_function_post (issued w w') = [FunctionsPost (generate_request env t p)] \<and>
             req_authorization (generate_request env t p) = ''Bearer '' @ t \<and>
             (\<not> generate_failed env p (gs, w) \<longrightarrow>
                (\<exists>cs. response env = JsonBody (Some cs) \<and>
                   generated_creatives (remote w') =
                     generated_creatives (after_delete env p (remote w)) @ creativesToInsert p cs \<and>
                   map (\<lambda>r. (image_url r, caption r, generation_prompt r)) (creativesToInsert p cs) =
                     map (\<lambda>c. (imageUrl c, payload_caption c, prompt c)) cs))"
proof (cases "session env")
  case None
  have w': "w' = snd (generateCreatives env p (gs, w))" using assms by simp
  have "generate_failed env p (gs, w)" using None by (simp add: generate_failed_iff)
  moreover have "filter is_function_post (issued w w') = []"
    unfolding issued_def w' calls_generateCreatives using None by (simp add: is_function_post_def)
  moreover have "remote w' = remote w"
    unfolding w' using None by (simp add: generate_defs)
  ultimately show ?thesis using None by simp
next
  case (Some t)
  have w': "w' = snd (generateCreatives env p (gs, w))" using assms by simp
  have "filter is_function_post (issued w w') = [FunctionsPost (generate_request env t p)]"
    unfolding issued_def w' calls_generateCreatives using Some
    by (simp add: is_function_post_def split: option.splits function_response.splits)
  moreover have "req_authorization (generate_request env t p) = ''Bearer '' @ t"
    by (simp add: generate_request_def)
  moreover have "\<exists>cs. response env = JsonBody (Some cs) \<and>
                   generated_creatives (remote w') =
                     generated_creatives (after_delete env p (remote w)) @ creativesToInsert p cs \<and>
                   map (\<lambda>r. (image_url r, caption r, generation_prompt r)) (creativesToInsert p cs) =
                     map (\<lambda>c. (imageUrl c, payload_caption c, prompt c)) cs"
    if "\<not> generate_failed env p (gs, w)"
  proof -
    from that obtain t' cs where
      ok: "session env = Some t'" "response env = JsonBody (Some cs)" "insert_error env = None"
      unfolding generate_failed_iff by blast
    show ?thesis
      using remote_generateCreatives_success [OF ok, of p gs w] ok(2) fields_creativesToInsert [of p cs]
      unfolding w' by (simp add: insert_creatives_def)
  qed
  ultimately show ?thesis using Some by simp
qed


text \<open>
  Claim C2 (after every successful run the project's stored batch is numbered densely from
  1). Evaluated on the store holding one prior creative of the project, with a delete that
  answers with an error and an insert that succeeds: the run does not fail and shows no
  alert, and the rows stored for the project, as the view then loads them, carry the
  variation numbers 1 and 1.
\<close>

theorem generateCreatives_unchecked_delete_repeats_numbers:
  "let env = example_env\<lparr>delete_error := Some OtherError\<rparr>;
       s' = generateCreatives env example_project (generator_init, example_world)
   in \<not> generate_failed env example_project (generator_init, example_world) \<and>
      alerts (snd s') = [] \<and>
      map variation_number
        (select_creatives (remote (snd s')) (project_ident example_project)) = [1, 1] \<and>
      map variation_number (creatives (fst s')) = [1, 1]"
  by (simp add: generate_failed_iff generate_defs example_env_def example_world_def
      example_project_def generator_init_def example_row_def example_payload_def
      creativesToInsert_def insert_creatives_def select_creatives_eq)

text \<open>Claim C5, on a run whose insert fails: the one prior creative of the project is lost.\<close>

theorem generateCreatives_failure_no_rollback_witness:
  "generate_failed (example_env\<lparr>insert_error := Some OtherError\<rparr>) example_project
     (generator_init, example_world) \<and>
   select_creatives (remote example_world) ''p1'' = [example_row 1 ''old''] \<and>
   select_creatives
     (remote (snd (generateCreatives (example_env\<lparr>insert_error := Some OtherError\<rparr>)
        example_project (generator_init, example_world)))) ''p1'' = [] \<and>
   alerts (snd (generateCreatives (example_env\<lparr>insert_error := Some OtherError\<rparr>)
        example_project (generator_init, example_world))) =
     [''Failed to generate creatives. Please try again.'']"
proof -
  let ?env = "example_env\<lparr>insert_error := Some OtherError\<rparr>"
  have h: "generate_failed ?env example_project (generator_init, example_world)"
    by (simp add: generate_failed_iff example_env_def)
  have old: "select_creatives (remote example_world) ''p1'' = [example_row 1 ''old'']"
    by (simp add: select_creatives_eq example_world_def example_row_def)
  show ?thesis
    using h old generateCreatives_failure_no_rollback [OF h prod.collapse [symmetric]]
    by (simp add: example_env_def example_project_def example_world_def)
qed

text \<open>Claim C6, on a run with a session and on a run without one.\<close>

theorem generateCreatives_remote_function_witness:
  "filter is_function_post
     (issued example_world
        (snd (generateCreatives example_env example_project (generator_init, example_world)))) =
     [FunctionsPost (generate_request example_env ''tok'' example_project)] \<and>
   req_authorization (generate_request example_env ''tok'' example_project) = ''Bearer tok'' \<and>
   \<not> generate_failed example_env example_project (generator_init, example_world) \<and>
   generate_failed (example_env\<lparr>session := None\<rparr>) example_project (generator_init, example_world) \<and>
   filter is_function_post
     (issued example_world
        (snd (generateCreatives (example_env\<lparr>session := None\<rparr>) example_project
           (generator_init, example_world)))) = []"
proof -
  have h: "\<not> generate_failed example_env example_project (generator_init, example_world)"
    by (simp add: generate_failed_iff example_env_def)
  show ?thesis
    using h
      generateCreatives_remote_function [of example_env example_project generator_init example_world, OF prod.collapse [symmetric]]
      generateCreatives_remote_function [of "example_env\<lparr>session := None\<rparr>" example_project generator_init example_world,
          OF prod.collapse [symmetric]]
    by (simp add: example_env_def)
qed


section \<open>Decimal rendering is injective\<close>

lemma digit_char_inj: "a < 10 \<Longrightarrow> b < 10 \<Longrightarrow> digit_char a = digit_char b \<Longrightarrow> a = b"
  unfolding digit_char_def
  by (subst (asm) nth_eq_iff_index_eq) simp_all

lemma digit_char_mem: "d < 10 \<Longrightarrow> digit_char d \<in> set ''0123456789''"
  unfolding digit_char_def by (rule nth_mem) simp

lemma set_string_of_nat: "set (string_of_nat n) \<subseteq> set ''0123456789''"
proof (induction n rule: string_of_nat.induct)
  case (1 n)
  show ?case
  proof (cases "n < 10")
    case True
    then show ?thesis
      using digit_char_mem [of n] by (subst string_of_nat.simps) simp
  next
    case False
    then show ?thesis
      using 1 digit_char_mem [of "n mod 10"] by (subst string_of_nat.simps) simp
  qed
qed

lemma string_of_nat_nonempty: "string_of_nat n \<noteq> []"
  by (subst string_of_nat.simps) simp

lemma string_of_nat_inj: "string_of_nat n = string_of_nat m \<Longrightarrow> n = m"
proof (induction n arbitrary: m rule: string_of_nat.induct)
  case (1 n)
  show ?case
  proof (cases "n < 10")
    case n: True
    show ?thesis
    proof (cases "m < 10")
      case True
      with n 1(2) show ?thesis
        by (simp add: string_of_nat.simps [of n] string_of_nat.simps [of m] digit_char_inj)
    next
      case False
      with n 1(2) show ?thesis
        using string_of_nat_nonempty [of "m div 10"]
        by (simp add: string_of_nat.simps [of n] string_of_nat.simps [of m])
    qed
  next
    case n: False
    show ?thesis
    proof (cases "m < 10")
      case True
      with n 1(2) show ?thesis
        using string_of_nat_nonempty [of "n div 10"]
        by (simp add: string_of_nat.simps [of n] string_of_nat.simps [of m])
    next
      case False
      with n 1(2) have "string_of_nat (n div 10) = string_of_nat (m div 10)"
        and d: "digit_char (n mod 10) = digit_char (m mod 10)"
        by (simp_all add: string_of_nat.simps [of n] string_of_nat.simps [of m])
      with 1(1) n have "n div 10 = m div 10" by simp
      moreover from d have "n mod 10 = m mod 10" by (rule digit_char_inj [rotated 2]) simp_all
      ultimately show ?thesis by (metis div_mult_mod_eq)
    qed
  qed
qed

lemma js_number_string_eq_nat: "js_number_string v = string_of_nat k \<longleftrightarrow> v = int k"
proof
  assume eq: "js_number_string v = string_of_nat k"
  show "v = int k"
  proof (cases "v < 0")
    case True
    with eq have "CHR ''-'' \<in> set (string_of_nat k)"
      by (metis js_number_string_def list.set_intros(1))
    with set_string_of_nat [of k] show ?thesis by auto
  next
    case False
    with eq have "string_of_nat (nat v) = string_of_nat k" by (simp add: js_number_string_def)
    then have "nat v = k" by (rule string_of_nat_inj)
    with False show ?thesis by simp
  qed
next
  assume "v = int k"
  then show "js_number_string v = string_of_nat k" by (simp add: js_number_string_def)
qed

text \<open>The number of a file equals the number of a label exactly on a dense batch in order.\<close>

lemma numbering_agrees_iff:
  "(\<forall>i<length cs. js_number_string (variation_number (cs ! i)) = string_of_nat (i + 1)) \<longleftrightarrow>
   map variation_number cs = map int [1..<Suc (length cs)]"
proof -
  have "map variation_number cs = map int [1..<Suc (length cs)] \<longleftrightarrow>
     (\<forall>i<length cs. variation_number (cs ! i) = int (i + 1))"
    (is "?L \<longleftrightarrow> ?R")
  proof
    assume l: ?L
    show ?R
    proof (intro allI impI)
      fix i assume i: "i < length cs"
      from l have "map variation_number cs ! i = map int [1..<Suc (length cs)] ! i" by simp
      with i show "variation_number (cs ! i) = int (i + 1)" by (simp del: upt_Suc)
    qed
  next
    assume ?R
    then show ?L by (intro nth_equalityI) (simp_all del: upt_Suc)
  qed
  then show ?thesis
    by (simp add: js_number_string_eq_nat)
qed

lemma caption_entry_variation: "caption_entry i (variation_number_update f c) = caption_entry i c"
  by (simp add: caption_entry_def)

lemma captionsText_variation: "captionsText (map (variation_number_update f) cs) = captionsText cs"
proof -
  have "concat (map (\<lambda>(i, c). caption_entry i c) (enumerate n (map (variation_number_update f) cs))) =
        concat (map (\<lambda>(i, c). caption_entry i c) (enumerate n cs))" for n
    by (induction cs arbitrary: n) (simp_all add: caption_entry_variation)
  then show ?thesis by (simp add: captionsText_def)
qed

section \<open>Properties of downloadAsZip\<close>

text \<open>The manifest, entry by entry: one entry per position of the list.\<close>

lemma captionsText_entries:
  "captionsText cs =
     concat (map (\<lambda>k. ''Image '' @ string_of_nat (k + 1) @ '':'' @ [CHR 0x0A] @
                    caption (cs ! k) @ [CHR 0x0A, CHR 0x0A] @
                    ''Prompt: '' @ generation_prompt (cs ! k) @ [CHR 0x0A, CHR 0x0A] @
                    ''---'' @ [CHR 0x0A, CHR 0x0A])
               [0..<length cs])"
proof -
  have "map (\<lambda>(index, creative). caption_entry index creative) (enumerate 0 cs) =
        map (\<lambda>k. caption_entry k (cs ! k)) [0..<length cs]"
    by (rule nth_equalityI) (simp_all add: nth_enumerate_eq)
  then show ?thesis
    by (simp add: captionsText_def caption_entry_def newline_def)
qed

lemma image_file_name_not_manifest: "image_file_name c \<noteq> ''captions.txt''"
  by (simp add: image_file_name_def)

lemma failed_indices_Suc:
  "failed_indices fetch i (Suc n) =
     (if fetch i = None then i # failed_indices fetch (Suc i) n else failed_indices fetch (Suc i) n)"
  by (simp add: failed_indices_def upt_conv_Cons del: upt_Suc)

lemma fetch_images_eq:
  "fetch_images fetch i cs (z, w) =
     (foldl (\<lambda>z (creative, blob). zip_file (image_file_name creative) (BlobEntry blob) z) z
        (fetched fetch i cs),
      w\<lparr>calls := calls w @ map (ImageFetch \<circ> image_url) cs,
        console := console w @ map fetch_failure_log (failed_indices fetch i (length cs))\<rparr>)"
proof (induction cs arbitrary: i z w)
  case Nil
  show ?case by (simp add: failed_indices_def)
next
  case (Cons c cs)
  show ?case
    by (simp add: Cons failed_indices_Suc call_def console_error_def fetch_failure_log_def Let_def
        split: option.splits)
qed

lemma download_failed_iff:
  "download_failed env p (gs, w) \<longleftrightarrow> import_error env \<noteq> None \<or> archive_error env \<noteq> None"
  by (auto simp: download_failed_def downloadAsZip_try_def Let_def createObjectURL_def
      split: option.splits prod.splits)

lemma downloadAsZip_success:
  assumes "import_error env = None" "archive_error env = None"
  shows "downloadAsZip env p (gs, w) =
     (gs\<lparr>downloadingZip := False\<rparr>,
      w\<lparr>calls := calls w @ map (ImageFetch \<circ> image_url) (creatives gs),
        console := console w @
          map fetch_failure_log (failed_indices (fetch_image env) 0 (length (creatives gs))),
        downloads := downloads w @
          [(download_name p,
            archive_of (captionsText (creatives gs)) (fetched (fetch_image env) 0 (creatives gs)))],
        object_urls := removeAll (''blob:'' @ string_of_nat (next_object_url w))
                         (object_urls w @ [''blob:'' @ string_of_nat (next_object_url w)]),
        next_object_url := Suc (next_object_url w)\<rparr>)"
  using assms
  by (simp add: downloadAsZip_def downloadAsZip_try_def Let_def fetch_images_eq archive_of_def
      createObjectURL_def revokeObjectURL_def)

lemma downloadAsZip_failure:
  assumes "download_failed env p (gs, w)"
  shows "downloads (snd (downloadAsZip env p (gs, w))) = downloads w"
    and "alerts (snd (downloadAsZip env p (gs, w))) =
           alerts w @ [''Failed to download zip file. Please try again.'']"
  using assms unfolding download_failed_iff
  by (auto simp: downloadAsZip_def downloadAsZip_try_def Let_def fetch_images_eq
      alert_def console_error_def split: option.splits)

lemma names_zip_file: "fst ` set (zip_file k v z) = insert k (fst ` set z)"
  by (simp add: zip_file_def dom_update)

lemma names_add_images:
  "fst ` set (foldl (\<lambda>z (creative, blob). zip_file (image_file_name creative) (BlobEntry blob) z) z items) =
     fst ` set z \<union> image_file_name ` fst ` set items"
proof (induction items arbitrary: z)
  case Nil
  show ?case by simp
next
  case (Cons item items)
  obtain c b where item: "item = (c, b)" by (cases item)
  show ?case
    unfolding item foldl_Cons prod.case Cons.IH names_zip_file by auto
qed

lemma distinct_add_images:
  "distinct (map fst z) \<Longrightarrow>
   distinct (map fst (foldl (\<lambda>z (creative, blob). zip_file (image_file_name creative) (BlobEntry blob) z) z items))"
  by (induction items arbitrary: z) (auto simp: zip_file_def distinct_update)

lemma map_of_add_images_other:
  "k \<notin> image_file_name ` fst ` set items \<Longrightarrow>
   map_of (foldl (\<lambda>z (creative, blob). zip_file (image_file_name creative) (BlobEntry blob) z) z items) k =
     map_of z k"
  by (induction items arbitrary: z) (auto simp: zip_file_def update_conv')

lemma map_of_add_images_cases:
  "map_of (foldl (\<lambda>z (creative, blob). zip_file (image_file_name creative) (BlobEntry blob) z) z items) k = Some e \<Longrightarrow>
   map_of z k = Some e \<or> (\<exists>(c, b) \<in> set items. k = image_file_name c \<and> e = BlobEntry b)"
proof (induction items arbitrary: z)
  case Nil
  then show ?case by simp
next
  case (Cons item items)
  obtain c b where item: "item = (c, b)" by (cases item)
  from Cons.IH [OF Cons.prems [unfolded item foldl_Cons prod.case]]
  show ?case
    by (auto simp: item zip_file_def update_conv' split: if_splits)
qed


lemma fetched_iff:
  "(c, b) \<in> set (fetched fetch i cs) \<longleftrightarrow> (\<exists>k<length cs. c = cs ! k \<and> fetch (i + k) = Some b)"
proof (induction cs arbitrary: i)
  case Nil
  show ?case by simp
next
  case (Cons x xs)
  have "(\<exists>k<length (x # xs). c = (x # xs) ! k \<and> fetch (i + k) = Some b) \<longleftrightarrow>
        (c = x \<and> fetch i = Some b) \<or> (\<exists>k<length xs. c = xs ! k \<and> fetch (Suc i + k) = Some b)"
    by (auto simp: less_Suc_eq_0_disj)
  then show ?case
    using Cons [of "Suc i"] by (auto split: option.splits)
qed

lemma manifest_archive_of:
  "map_of (archive_of manifest items) ''captions.txt'' = Some (TextEntry manifest)"
  unfolding archive_of_def
  by (subst map_of_add_images_other)
    (auto simp: image_file_name_not_manifest [THEN not_sym] zip_file_def)

lemma distinct_archive_of: "distinct (map fst (archive_of manifest items))"
  unfolding archive_of_def by (rule distinct_add_images) (simp add: zip_file_def)

lemma names_archive_of:
  "fst ` set (archive_of manifest items) = insert ''captions.txt'' (image_file_name ` fst ` set items)"
  unfolding archive_of_def names_add_images by (simp add: zip_file_def)

lemma entries_archive_of:
  assumes "map_of (archive_of manifest items) k = Some e"
  shows "(k = ''captions.txt'' \<and> e = TextEntry manifest) \<or>
         (\<exists>(c, b) \<in> set items. k = image_file_name c \<and> e = BlobEntry b)"
  using map_of_add_images_cases [OF assms [unfolded archive_of_def]]
  by (auto simp: zip_file_def split: if_splits)

lemma image_archive_of:
  assumes "(c, b) \<in> set items"
  shows "\<exists>b'. map_of (archive_of manifest items) (image_file_name c) = Some (BlobEntry b')"
proof -
  from assms have "image_file_name c \<in> fst ` set (archive_of manifest items)"
    unfolding names_archive_of by force
  then obtain e where e: "map_of (archive_of manifest items) (image_file_name c) = Some e"
    by (metis domD dom_map_of_conv_image_fst)
  from entries_archive_of [OF e] show ?thesis
    using e by (auto simp: image_file_name_not_manifest)
qed

lemma absent_archive_of:
  assumes "k \<noteq> ''captions.txt''" "k \<notin> image_file_name ` fst ` set items"
  shows "map_of (archive_of manifest items) k = None"
  using assms names_archive_of [of manifest items]
  by (metis insert_iff map_of_eq_None_iff)

text \<open>
  Claim C3 (a failed image fetch is not fatal). Whatever the fetches of the items do, when
  the import of the archive library and the generation of the archive do not throw, the
  run shows no alert and hands the browser one archive. Its entry \<open>captions.txt\<close> is the
  text that has, for every position of the list, failed fetches included, the label with
  the position, the caption and the prompt of the item there. An item whose fetch threw
  contributes no file (its name is absent unless a fetched item shares it), every item
  whose fetch delivered has its file, one line is logged per failed fetch, and every
  item's image was requested, in list order. The run aborts, with the alert and no
  download, exactly when the import or the generation throws.
\<close>

theorem downloadAsZip_fetch_failure_not_fatal:
  assumes "downloadAsZip env p (gs, w) = (gs', w')"
  shows "if import_error env = None \<and> archive_error env = None
         then (\<exists>z. downloads w' = downloads w @ [(download_name p, z)] \<and>
                z = archive_of (captionsText (creatives gs))
                      (fetched (fetch_image env) 0 (creatives gs)) \<and>
                map_of z ''captions.txt'' =
                  Some (TextEntry
                    (concat (map (\<lambda>k. ''Image '' @ string_of_nat (k + 1) @ '':'' @ [CHR 0x0A] @
                    caption (creatives gs ! k) @ [CHR 0x0A, CHR 0x0A] @
                    ''Prompt: '' @ generation_prompt (creatives gs ! k) @ [CHR 0x0A, CHR 0x0A] @
                    ''---'' @ [CHR 0x0A, CHR 0x0A])
                       [0..<length (creatives gs)]))) \<and>
                (\<forall>k<length (creatives gs).
                    fetch_image env k = None \<and>
                    image_file_name (creatives gs ! k) \<notin>
                      image_file_name ` fst ` set (fetched (fetch_image env) 0 (creatives gs)) \<longrightarrow>
                    map_of z (image_file_name (creatives gs ! k)) = None) \<and>
                (\<forall>k<length (creatives gs).
                    fetch_image env k \<noteq> None \<longrightarrow>
                    (\<exists>b. map_of z (image_file_name (creatives gs ! k)) = Some (BlobEntry b)))) \<and>
              alerts w' = alerts w \<and>
              console w' = console w @
                map fetch_failure_log (failed_indices (fetch_image env) 0 (length (creatives gs))) \<and>
              issued w w' = map (ImageFetch \<circ> image_url) (creatives gs)
         else downloads w' = downloads w \<and>
              alerts w' = alerts w @ [''Failed to download zip file. Please try again.'']"
proof (cases "import_error env = None \<and> archive_error env = None")
  case True
  then have ok: "import_error env = None" "archive_error env = None" by simp_all
  let ?items = "fetched (fetch_image env) 0 (creatives gs)"
  let ?z = "archive_of (captionsText (creatives gs)) ?items"
  have w': "w' = snd (downloadAsZip env p (gs, w))" using assms by simp
  have "\<exists>b. map_of ?z (image_file_name (creatives gs ! k)) = Some (BlobEntry b)"
    if "k < length (creatives gs)" "fetch_image env k \<noteq> None" for k
  proof -
    from that obtain b where "(creatives gs ! k, b) \<in> set ?items"
      unfolding fetched_iff by auto
    then show ?thesis by (rule image_archive_of)
  qed
  moreover have "map_of ?z (image_file_name (creatives gs ! k)) = None"
    if "image_file_name (creatives gs ! k) \<notin> image_file_name ` fst ` set ?items" for k
    using that by (intro absent_archive_of) (simp_all add: image_file_name_not_manifest)
  moreover have "map_of ?z ''captions.txt'' =
      Some (TextEntry
        (concat (map (\<lambda>k. ''Image '' @ string_of_nat (k + 1) @ '':'' @ [CHR 0x0A] @
                    caption (creatives gs ! k) @ [CHR 0x0A, CHR 0x0A] @
                    ''Prompt: '' @ generation_prompt (creatives gs ! k) @ [CHR 0x0A, CHR 0x0A] @
                    ''---'' @ [CHR 0x0A, CHR 0x0A])
           [0..<length (creatives gs)])))"
    unfolding manifest_archive_of by (simp only: captionsText_entries [of "creatives gs"])
  ultimately show ?thesis
    using True unfolding w' downloadAsZip_success [OF ok]
    by (simp add: issued_def)
next
  case False
  then have "download_failed env p (gs, w)" by (simp add: download_failed_iff)
  from downloadAsZip_failure [OF this] False assms show ?thesis by auto
qed

text \<open>
  Claim C4 (contents and name of the archive). A run that succeeds hands the browser one
  download named after the project (white space replaced, \<open>_creatives.zip\<close> appended).
  The archive has one entry per name; its names are \<open>captions.txt\<close> and, for each item
  whose fetch delivered a blob, \<open>creative_\<close>, the item's variation number and \<open>.jpg\<close>;
  the entry \<open>captions.txt\<close> is the manifest text and every other entry is the blob of such
  an item.
\<close>

theorem downloadAsZip_archive_contents:
  assumes "\<not> download_failed env p (gs, w)" and "downloadAsZip env p (gs, w) = (gs', w')"
  shows "\<exists>z. downloads w' = downloads w @ [(download_name p, z)] \<and>
           download_name p = replace_whitespace (project_name p) @ ''_creatives.zip'' \<and>
           distinct (map fst z) \<and>
           fst ` set z =
             insert ''captions.txt''
               {image_file_name (creatives gs ! k) |k.
                  k < length (creatives gs) \<and> fetch_image env k \<noteq> None} \<and>
           (\<forall>name e. map_of z name = Some e \<longrightarrow>
              (name = ''captions.txt'' \<and> e = TextEntry (captionsText (creatives gs))) \<or>
              (\<exists>k<length (creatives gs). \<exists>b.
                 name = ''creative_'' @ js_number_string (variation_number (creatives gs ! k)) @ ''.jpg'' \<and>
                 fetch_image env k = Some b \<and> e = BlobEntry b))"
proof -
  from assms(1) have ok: "import_error env = None" "archive_error env = None"
    by (simp_all add: download_failed_iff)
  let ?items = "fetched (fetch_image env) 0 (creatives gs)"
  let ?z = "archive_of (captionsText (creatives gs)) ?items"
  have w': "w' = snd (downloadAsZip env p (gs, w))" using assms by simp
  have dl: "downloads w' = downloads w @ [(download_name p, ?z)]"
    unfolding w' downloadAsZip_success [OF ok] by simp
  have nm: "download_name p = replace_whitespace (project_name p) @ ''_creatives.zip''"
    by (simp add: download_name_def)
  have "image_file_name ` fst ` set ?items =
      {image_file_name (creatives gs ! k) |k. k < length (creatives gs) \<and> fetch_image env k \<noteq> None}"
  proof (intro set_eqI iffI)
    fix x assume "x \<in> image_file_name ` fst ` set ?items"
    then obtain c b where "(c, b) \<in> set ?items" "x = image_file_name c" by force
    then show "x \<in> {image_file_name (creatives gs ! k) |k.
                  k < length (creatives gs) \<and> fetch_image env k \<noteq> None}"
      unfolding fetched_iff by auto
  next
    fix x assume "x \<in> {image_file_name (creatives gs ! k) |k.
                  k < length (creatives gs) \<and> fetch_image env k \<noteq> None}"
    then obtain k b where k: "k < length (creatives gs)" "x = image_file_name (creatives gs ! k)"
      "fetch_image env k = Some b" by auto
    then have "(creatives gs ! k, b) \<in> set ?items" unfolding fetched_iff by auto
    with k(2) show "x \<in> image_file_name ` fst ` set ?items" by force
  qed
  then have names: "fst ` set ?z =
      insert ''captions.txt''
        {image_file_name (creatives gs ! k) |k.
           k < length (creatives gs) \<and> fetch_image env k \<noteq> None}"
    by (simp only: names_archive_of)
  have entries: "(name = ''captions.txt'' \<and> e = TextEntry (captionsText (creatives gs))) \<or>
              (\<exists>k<length (creatives gs). \<exists>b.
                 name = ''creative_'' @ js_number_string (variation_number (creatives gs ! k)) @ ''.jpg'' \<and>
                 fetch_image env k = Some b \<and> e = BlobEntry b)"
    if "map_of ?z name = Some e" for name e
    using entries_archive_of [OF that]
  proof
    assume "name = ''captions.txt'' \<and> e = TextEntry (captionsText (creatives gs))"
    then show ?thesis by simp
  next
    assume "\<exists>(c, b) \<in> set ?items. name = image_file_name c \<and> e = BlobEntry b"
    then obtain c b where
      "(c, b) \<in> set ?items" "name = image_file_name c" "e = BlobEntry b" by auto
    then have "\<exists>k<length (creatives gs). \<exists>b.
                 name = ''creative_'' @ js_number_string (variation_number (creatives gs ! k)) @ ''.jpg'' \<and>
                 fetch_image env k = Some b \<and> e = BlobEntry b"
      unfolding fetched_iff image_file_name_def by auto
    then show ?thesis by (rule disjI2)
  qed
  from dl nm distinct_archive_of [of "captionsText (creatives gs)" ?items] names entries
  show ?thesis by blast
qed


subsection \<open>Concrete runs\<close>

lemmas example_defs =
  example_download_env_def example_fetch_def example_view_def example_creatives_def
  example_row_def example_project_def example_world_def generator_init_def

lemma number_examples:
  "string_of_nat 0 = ''0''" "string_of_nat 1 = ''1''" "string_of_nat 2 = ''2''"
  "string_of_nat 3 = ''3''" "string_of_nat (Suc 0) = ''1''"
  "string_of_nat (Suc (Suc 0)) = ''2''" "string_of_nat (Suc (Suc (Suc 0))) = ''3''"
  "js_number_string 1 = ''1''" "js_number_string 2 = ''2''" "js_number_string 3 = ''3''"
  by (simp_all add: string_of_nat.simps digit_char_def js_number_string_def)

lemma example_archive:
  "archive_of (captionsText example_creatives) (fetched example_fetch 0 example_creatives) =
     [(''captions.txt'', TextEntry (captionsText example_creatives)),
      (''creative_1.jpg'', BlobEntry ''blob''),
      (''creative_3.jpg'', BlobEntry ''blob'')]"
  by (simp add: archive_of_def zip_file_def example_fetch_def example_creatives_def example_row_def
      image_file_name_def number_examples)

lemma example_manifest:
  "captionsText example_creatives =
     ''Image 1:'' @ [CHR 0x0A] @ ''a caption'' @ [CHR 0x0A, CHR 0x0A] @
     ''Prompt: a prompt'' @ [CHR 0x0A, CHR 0x0A] @ ''---'' @ [CHR 0x0A, CHR 0x0A] @
     ''Image 2:'' @ [CHR 0x0A] @ ''b caption'' @ [CHR 0x0A, CHR 0x0A] @
     ''Prompt: b prompt'' @ [CHR 0x0A, CHR 0x0A] @ ''---'' @ [CHR 0x0A, CHR 0x0A] @
     ''Image 3:'' @ [CHR 0x0A] @ ''c caption'' @ [CHR 0x0A, CHR 0x0A] @
     ''Prompt: c prompt'' @ [CHR 0x0A, CHR 0x0A] @ ''---'' @ [CHR 0x0A, CHR 0x0A]"
  by (simp add: captionsText_def caption_entry_def newline_def example_creatives_def
      example_row_def number_examples)

lemma example_download_name: "download_name example_project = ''Summer_Campaign_2024_creatives.zip''"
  by (simp add: download_name_def example_project_def is_space_def)

lemma example_failure_log:
  "map fetch_failure_log (failed_indices example_fetch 0 (length example_creatives)) =
     [''Failed to fetch image 2:'']"
  by (simp add: failed_indices_def example_fetch_def example_creatives_def fetch_failure_log_def
      number_examples)

text \<open>Claim C3, on three items of which the second cannot be fetched.\<close>

theorem downloadAsZip_fetch_failure_not_fatal_witness:
  "downloads (snd (downloadAsZip (example_download_env example_fetch) example_project
      (example_view, example_world))) =
     [(''Summer_Campaign_2024_creatives.zip'',
       [(''captions.txt'',
         TextEntry
           (''Image 1:'' @ [CHR 0x0A] @ ''a caption'' @ [CHR 0x0A, CHR 0x0A] @
            ''Prompt: a prompt'' @ [CHR 0x0A, CHR 0x0A] @ ''---'' @ [CHR 0x0A, CHR 0x0A] @
            ''Image 2:'' @ [CHR 0x0A] @ ''b caption'' @ [CHR 0x0A, CHR 0x0A] @
            ''Prompt: b prompt'' @ [CHR 0x0A, CHR 0x0A] @ ''---'' @ [CHR 0x0A, CHR 0x0A] @
            ''Image 3:'' @ [CHR 0x0A] @ ''c caption'' @ [CHR 0x0A, CHR 0x0A] @
            ''Prompt: c prompt'' @ [CHR 0x0A, CHR 0x0A] @ ''---'' @ [CHR 0x0A, CHR 0x0A])),
        (''creative_1.jpg'', BlobEntry ''blob''),
        (''creative_3.jpg'', BlobEntry ''blob'')])] \<and>
   console (snd (downloadAsZip (example_download_env example_fetch) example_project
      (example_view, example_world))) = [''Failed to fetch image 2:''] \<and>
   alerts (snd (downloadAsZip (example_download_env example_fetch) example_project
      (example_view, example_world))) = []"
proof -
  let ?env = "example_download_env example_fetch"
  let ?w' = "snd (downloadAsZip ?env example_project (example_view, example_world))"
  have ok: "import_error ?env = None \<and> archive_error ?env = None"
    by (simp add: example_download_env_def)
  have cs: "creatives example_view = example_creatives" "fetch_image ?env = example_fetch"
    by (simp_all add: example_view_def example_download_env_def)
  have "downloads ?w' = downloads example_world @
          [(download_name example_project,
            archive_of (captionsText example_creatives) (fetched example_fetch 0 example_creatives))] \<and>
        console ?w' = console example_world @
          map fetch_failure_log (failed_indices example_fetch 0 (length example_creatives)) \<and>
        alerts ?w' = alerts example_world"
    using downloadAsZip_fetch_failure_not_fatal
      [of ?env example_project example_view example_world, OF prod.collapse [symmetric]]
    unfolding if_P [OF ok] cs by blast
  then have "downloads ?w' =
          [(''Summer_Campaign_2024_creatives.zip'',
            [(''captions.txt'', TextEntry (captionsText example_creatives)),
             (''creative_1.jpg'', BlobEntry ''blob''),
             (''creative_3.jpg'', BlobEntry ''blob'')])] \<and>
        console ?w' = [''Failed to fetch image 2:''] \<and>
        alerts ?w' = []"
    by (simp add: example_archive example_download_name example_failure_log example_world_def)
  then show ?thesis
    by (simp only: example_manifest)
qed

lemma example_indices:
  "{k. k < length example_creatives \<and> example_fetch k \<noteq> None} = {0, 2}"
  by (auto simp: example_creatives_def example_fetch_def)

lemma example_names: "{image_file_name (example_creatives ! k) |k.
       k < length example_creatives \<and> example_fetch k \<noteq> None} =
     {''creative_1.jpg'', ''creative_3.jpg''}"
proof -
  have "{image_file_name (example_creatives ! k) |k.
       k < length example_creatives \<and> example_fetch k \<noteq> None} =
     (\<lambda>k. image_file_name (example_creatives ! k)) ` {k. k < length example_creatives \<and> example_fetch k \<noteq> None}"
    by blast
  also have "\<dots> = {''creative_1.jpg'', ''creative_3.jpg''}"
    unfolding example_indices
    by (simp add: example_creatives_def example_row_def image_file_name_def number_examples)
  finally show ?thesis .
qed


text \<open>Claim C4, on three items of which the second cannot be fetched.\<close>

theorem downloadAsZip_archive_contents_witness:
  "\<not> download_failed (example_download_env example_fetch) example_project
      (example_view, example_world) \<and>
   (\<exists>z. downloads (snd (downloadAsZip (example_download_env example_fetch)
            example_project (example_view, example_world))) =
          [(''Summer_Campaign_2024_creatives.zip'', z)] \<and>
        distinct (map fst z) \<and>
        fst ` set z = {''captions.txt'', ''creative_1.jpg'', ''creative_3.jpg''})"
proof -
  let ?env = "example_download_env example_fetch"
  let ?w' = "snd (downloadAsZip ?env example_project (example_view, example_world))"
  have h: "\<not> download_failed ?env example_project (example_view, example_world)"
    by (simp add: download_failed_iff example_download_env_def)
  have cs: "creatives example_view = example_creatives" "fetch_image ?env = example_fetch"
    by (simp_all add: example_view_def example_download_env_def)
  from downloadAsZip_archive_contents [OF h prod.collapse [symmetric]]
  obtain z where
    "downloads ?w' = downloads example_world @ [(download_name example_project, z)]"
    "distinct (map fst z)"
    "fst ` set z = insert ''captions.txt''
       {image_file_name (creatives example_view ! k) |k.
          k < length (creatives example_view) \<and> fetch_image ?env k \<noteq> None}"
    by (elim exE conjE)
  then have
    "downloads ?w' = [(''Summer_Campaign_2024_creatives.zip'', z)]"
    "distinct (map fst z)"
    "fst ` set z = {''captions.txt'', ''creative_1.jpg'', ''creative_3.jpg''}"
    unfolding cs example_names example_download_name
    by (simp_all add: example_world_def)
  with h show ?thesis by blast
qed

section \<open>The two numberings of the archive\<close>

text \<open>
  Claim C10 (two numberings). The manifest is, position by position, the label \<open>Image\<close>
  with the 1-based position of the item in the list, then its caption and prompt; it does
  not depend on the variation numbers of the items. The image file of an item is named by
  its variation number. The name of the file at every position carries the number of the
  label there if and only if the variation numbers of the list are \<open>1, 2, ..., N\<close> in
  order.
\<close>

theorem manifest_and_file_numbering:
  "captionsText cs =
     concat (map (\<lambda>k. ''Image '' @ string_of_nat (k + 1) @ '':'' @ [CHR 0x0A] @
                    caption (cs ! k) @ [CHR 0x0A, CHR 0x0A] @
                    ''Prompt: '' @ generation_prompt (cs ! k) @ [CHR 0x0A, CHR 0x0A] @
                    ''---'' @ [CHR 0x0A, CHR 0x0A])
               [0..<length cs]) \<and>
   captionsText (map (variation_number_update f) cs) = captionsText cs \<and>
   image_file_name c = ''creative_'' @ js_number_string (variation_number c) @ ''.jpg'' \<and>
   ((\<forall>i<length cs. image_file_name (cs ! i) = ''creative_'' @ string_of_nat (i + 1) @ ''.jpg'') \<longleftrightarrow>
      map variation_number cs = map int [1..<Suc (length cs)])"
proof -
  have "(\<forall>i<length cs. image_file_name (cs ! i) = ''creative_'' @ string_of_nat (i + 1) @ ''.jpg'') \<longleftrightarrow>
        (\<forall>i<length cs. js_number_string (variation_number (cs ! i)) = string_of_nat (i + 1))"
    by (simp add: image_file_name_def)
  then show ?thesis
    using captionsText_entries [of cs] captionsText_variation [of f cs] numbering_agrees_iff [of cs]
    by (simp only: image_file_name_def simp_thms)
qed

text \<open>
  Claim C10, on a single item numbered 7 (labelled 1, file 7), on a two-digit number, on
  a dense batch in order and on the same batch reversed.
\<close>

theorem manifest_and_file_numbering_witness:
  "captionsText [example_row 7 ''a''] =
     ''Image 1:'' @ [CHR 0x0A] @ ''a caption'' @ [CHR 0x0A, CHR 0x0A] @
     ''Prompt: a prompt'' @ [CHR 0x0A, CHR 0x0A] @ ''---'' @ [CHR 0x0A, CHR 0x0A] \<and>
   image_file_name (example_row 7 ''a'') = ''creative_7.jpg'' \<and>
   image_file_name (example_row 12 ''x'') = ''creative_12.jpg'' \<and>
   map variation_number example_creatives = [1, 2, 3] \<and>
   map image_file_name example_creatives =
     [''creative_1.jpg'', ''creative_2.jpg'',
      ''creative_3.jpg''] \<and>
   map variation_number (rev example_creatives) = [3, 2, 1] \<and>
   \<not> (\<forall>i<length (rev example_creatives).
        image_file_name (rev example_creatives ! i) =
          ''creative_'' @ string_of_nat (i + 1) @ ''.jpg'')"
proof -
  have more: "string_of_nat 7 = ''7''" "string_of_nat 12 = ''12''"
    by (simp_all add: string_of_nat.simps digit_char_def)
  have one: "captionsText [example_row 7 ''a''] =
     ''Image 1:'' @ [CHR 0x0A] @ ''a caption'' @ [CHR 0x0A, CHR 0x0A] @
     ''Prompt: a prompt'' @ [CHR 0x0A, CHR 0x0A] @ ''---'' @ [CHR 0x0A, CHR 0x0A]"
    using manifest_and_file_numbering [of "[example_row 7 ''a'']" id "example_row 7 ''a''"]
    by (simp add: example_row_def number_examples)
  have names: "image_file_name (example_row 7 ''a'') = ''creative_7.jpg''"
    "image_file_name (example_row 12 ''x'') = ''creative_12.jpg''"
    using manifest_and_file_numbering [of "[]" id "example_row 7 ''a''"]
      manifest_and_file_numbering [of "[]" id "example_row 12 ''x''"]
    by (simp_all add: example_row_def js_number_string_def more)
  have dense: "\<forall>i<length example_creatives.
      image_file_name (example_creatives ! i) = ''creative_'' @ string_of_nat (i + 1) @ ''.jpg''"
    using manifest_and_file_numbering [of example_creatives id "example_row 7 ''a''"]
    by (simp add: example_creatives_def example_row_def)
  have reversed: "\<not> (\<forall>i<length (rev example_creatives).
        image_file_name (rev example_creatives ! i) =
          ''creative_'' @ string_of_nat (i + 1) @ ''.jpg'')"
    using manifest_and_file_numbering [of "rev example_creatives" id "example_row 7 ''a''"]
    by (simp add: example_creatives_def example_row_def)
  have "image_file_name (example_creatives ! 0) = ''creative_1.jpg''"
    using dense [rule_format, of 0] by (simp add: example_creatives_def number_examples)
  moreover have "image_file_name (example_creatives ! 1) = ''creative_2.jpg''"
    using dense [rule_format, of 1] by (simp add: example_creatives_def number_examples)
  moreover have "image_file_name (example_creatives ! 2) = ''creative_3.jpg''"
    using dense [rule_format, of 2] by (simp add: example_creatives_def number_examples)
  ultimately have "map image_file_name example_creatives =
     [''creative_1.jpg'', ''creative_2.jpg'',
      ''creative_3.jpg'']"
    by (simp add: example_creatives_def)
  with one names reversed show ?thesis
    by (simp add: example_creatives_def example_row_def)
qed

section \<open>The order of the creatives in the view\<close>

lemma sorted_select_creatives: "sorted (map variation_number (select_creatives db pid))"
  by (simp add: select_creatives_eq)

lemma creatives_loadCreatives:
  "creatives (fst (loadCreatives e p (gs, w))) =
     (case e of None \<Rightarrow> select_creatives (remote w) (project_ident p) | Some x \<Rightarrow> creatives gs)"
  by (simp add: loadCreatives_def Let_def call_def split: option.splits)

lemma creatives_generateCreatives:
  "creatives (fst (generateCreatives env p (gs, w))) = creatives gs \<or>
   (\<exists>db. creatives (fst (generateCreatives env p (gs, w))) = select_creatives db (project_ident p))"
  by (auto simp: generate_defs split: option.splits function_response.splits)

lemma creatives_downloadAsZip: "creatives (fst (downloadAsZip env p (gs, w))) = creatives gs"
  by (simp add: downloadAsZip_def Let_def split: prod.splits)

lemma sorted_generator_step:
  assumes "sorted (map variation_number (creatives (fst s)))"
  shows "sorted (map variation_number (creatives (fst (generator_step p s a))))"
proof -
  obtain gs w where s: "s = (gs, w)" by (cases s)
  show ?thesis
  proof (cases a)
    case (LoadCreatives e)
    then show ?thesis
      using assms by (simp add: s creatives_loadCreatives sorted_select_creatives split: option.splits)
  next
    case (GenerateCreatives env)
    then show ?thesis
      using assms creatives_generateCreatives [of env p gs w]
      by (auto simp: s sorted_select_creatives)
  next
    case (DownloadAsZip env)
    then show ?thesis
      using assms by (simp add: s creatives_downloadAsZip)
  qed
qed

lemma sorted_generator_run:
  "sorted (map variation_number (creatives (fst s))) \<Longrightarrow>
   sorted (map variation_number (creatives (fst (foldl (generator_step p) s acts))))"
  by (induction acts arbitrary: s) (simp_all add: sorted_generator_step)

lemma calls_downloadAsZip:
  "calls (snd (downloadAsZip env p (gs, w))) =
     calls w @ (if import_error env = None then map (ImageFetch \<circ> image_url) (creatives gs) else [])"
  by (auto simp: downloadAsZip_def downloadAsZip_try_def Let_def fetch_images_eq
      createObjectURL_def revokeObjectURL_def alert_def console_error_def split: option.splits)

lemma downloads_downloadAsZip_failure:
  "\<not> (import_error env = None \<and> archive_error env = None) \<Longrightarrow>
   downloads (snd (downloadAsZip env p (gs, w))) = downloads w"
  using downloadAsZip_failure(1) [of env p gs w] by (simp add: download_failed_iff)

lemma manifest_downloadAsZip:
  assumes "import_error env = None \<and> archive_error env = None"
  shows "\<exists>z. downloads (snd (downloadAsZip env p (gs, w))) = downloads w @ [(download_name p, z)] \<and>
             map_of z ''captions.txt'' =
               Some (TextEntry
                 (concat (map (\<lambda>k. ''Image '' @ string_of_nat (k + 1) @ '':'' @ [CHR 0x0A] @
                    caption (creatives gs ! k) @ [CHR 0x0A, CHR 0x0A] @
                    ''Prompt: '' @ generation_prompt (creatives gs ! k) @ [CHR 0x0A, CHR 0x0A] @
                    ''---'' @ [CHR 0x0A, CHR 0x0A])
                    [0..<length (creatives gs)])))"
proof -
  from assms have ok: "import_error env = None" "archive_error env = None" by simp_all
  have "map_of (archive_of (captionsText (creatives gs))
                 (fetched (fetch_image env) 0 (creatives gs))) ''captions.txt'' =
      Some (TextEntry
        (concat (map (\<lambda>k. ''Image '' @ string_of_nat (k + 1) @ '':'' @ [CHR 0x0A] @
                    caption (creatives gs ! k) @ [CHR 0x0A, CHR 0x0A] @
                    ''Prompt: '' @ generation_prompt (creatives gs ! k) @ [CHR 0x0A, CHR 0x0A] @
                    ''---'' @ [CHR 0x0A, CHR 0x0A])
           [0..<length (creatives gs)])))"
    unfolding manifest_archive_of by (simp only: captionsText_entries [of "creatives gs"])
  then show ?thesis
    unfolding downloadAsZip_success [OF ok] by simp
qed

text \<open>
  Claim C9 (the view's list is sorted by variation number). In every state the view reaches
  from its initial state by loads, generations and downloads, whatever the outside world
  answers, the list of creatives is in ascending order of variation number. A load that
  succeeds sets the list to the store's answer to the query that asks for the project's
  rows in ascending order of \<open>variation_number\<close>: the project's rows, sorted. The list is
  used in its order as it stands: the cards are rendered in list order, a download
  requests the images in list order, and the manifest of its archive has the entries of
  the items in list order.
\<close>

theorem creatives_sorted_by_variation_number:
  assumes "foldl (generator_step p) (generator_init, w0) acts = (gs, w)"
  shows "sorted (map variation_number (creatives gs)) \<and>
         creatives (fst (loadCreatives None p (gs, w))) =
           answer_creatives_query
             \<lparr>eq_project_id = project_ident p, order_variation_number = Some Ascending\<rparr>
             (remote w) \<and>
         sorted (map variation_number (creatives (fst (loadCreatives None p (gs, w))))) \<and>
         set (creatives (fst (loadCreatives None p (gs, w)))) =
           {r \<in> set (generated_creatives (remote w)). project_id r = project_ident p} \<and>
         map card_badge (render_cards gs) =
           (if loading gs then []
            else map (\<lambda>c. ''#'' @ js_number_string (variation_number c)) (creatives gs)) \<and>
         issued w (snd (downloadAsZip env p (gs, w))) =
           (if import_error env = None then map (ImageFetch \<circ> image_url) (creatives gs)
            else []) \<and>
         (if import_error env = None \<and> archive_error env = None
          then \<exists>z. downloads (snd (downloadAsZip env p (gs, w))) =
                      downloads w @ [(download_name p, z)] \<and>
                   map_of z ''captions.txt'' =
                     Some (TextEntry
                       (concat (map (\<lambda>k. ''Image '' @ string_of_nat (k + 1) @ '':'' @ [CHR 0x0A] @
                    caption (creatives gs ! k) @ [CHR 0x0A, CHR 0x0A] @
                    ''Prompt: '' @ generation_prompt (creatives gs ! k) @ [CHR 0x0A, CHR 0x0A] @
                    ''---'' @ [CHR 0x0A, CHR 0x0A])
                          [0..<length (creatives gs)])))
          else downloads (snd (downloadAsZip env p (gs, w))) = downloads w)"
proof -
  have "sorted (map variation_number (creatives (fst (generator_init, w0))))"
    by (simp add: generator_init_def)
  then have "sorted (map variation_number
     (creatives (fst (foldl (generator_step p) (generator_init, w0) acts))))"
    by (rule sorted_generator_run)
  then have 1: "sorted (map variation_number (creatives gs))"
    using assms by simp
  have 2: "creatives (fst (loadCreatives None p (gs, w))) =
           answer_creatives_query
             \<lparr>eq_project_id = project_ident p, order_variation_number = Some Ascending\<rparr>
             (remote w)"
    by (simp add: creatives_loadCreatives select_creatives_def creatives_query_def)
  have 3: "sorted (map variation_number (creatives (fst (loadCreatives None p (gs, w)))))"
    by (simp add: creatives_loadCreatives sorted_select_creatives)
  have 4: "set (creatives (fst (loadCreatives None p (gs, w)))) =
           {r \<in> set (generated_creatives (remote w)). project_id r = project_ident p}"
    by (auto simp: creatives_loadCreatives select_creatives_eq)
  have 5: "map card_badge (render_cards gs) =
           (if loading gs then []
            else map (\<lambda>c. ''#'' @ js_number_string (variation_number c)) (creatives gs))"
    by (simp add: render_cards_def comp_def)
  have 6: "issued w (snd (downloadAsZip env p (gs, w))) =
           (if import_error env = None then map (ImageFetch \<circ> image_url) (creatives gs)
            else [])"
    by (simp add: issued_def calls_downloadAsZip)
  show ?thesis
  proof (cases "import_error env = None \<and> archive_error env = None")
    case True
    from manifest_downloadAsZip [OF True, of p gs w] 1 2 3 4 5 6 True show ?thesis
      by (simp only: if_True simp_thms)
  next
    case False
    from downloads_downloadAsZip_failure [OF False, of p gs w] 1 2 3 4 5 6 False show ?thesis
      by (simp only: if_False simp_thms)
  qed
qed

text \<open>
  Claim C9, on a store that holds the project's creatives as 2 then 1, with a creative of
  another project between them: after one load the view holds 1 then 2.
\<close>

theorem creatives_sorted_by_variation_number_witness:
  "map variation_number (generated_creatives (remote example_world_b)) = [2, 1, 1] \<and>
   sorted (map variation_number
     (creatives (fst (foldl (generator_step example_project) (generator_init, example_world_b)
        [LoadCreatives None])))) \<and>
   creatives (fst (foldl (generator_step example_project) (generator_init, example_world_b)
        [LoadCreatives None])) = [example_row 1 ''a'', example_row 2 ''b'']"
proof -
  have run: "creatives (fst (foldl (generator_step example_project)
        (generator_init, example_world_b) [LoadCreatives None])) =
      [example_row 1 ''a'', example_row 2 ''b'']"
    by (simp add: creatives_loadCreatives select_creatives_eq example_world_b_def
        example_world_def example_project_def example_row_def)
  have stored: "map variation_number (generated_creatives (remote example_world_b)) = [2, 1, 1]"
    by (simp add: example_world_b_def example_world_def example_row_def)
  from creatives_sorted_by_variation_number
    [of example_project example_world_b "[LoadCreatives None]", OF prod.collapse [symmetric]]
  have "sorted (map variation_number
     (creatives (fst (foldl (generator_step example_project) (generator_init, example_world_b)
        [LoadCreatives None]))))"
    by (rule conjunct1)
  with run stored show ?thesis by simp
qed

section \<open>Clearing an upload\<close>

text \<open>
  Claim C8 (clearing an upload revokes and clears its preview URL), on a concrete form: the
  logo is selected and then cleared. The preview state is empty afterwards, but the object
  URL created at selection is still registered as live.
\<close>

theorem onClear_leaves_object_url_live:
  "logoPreview (fst (handleLogoSelect example_file (form_init, example_world))) = ''blob:0'' \<and>
   logoPreview (fst (logo_onClear (handleLogoSelect example_file (form_init, example_world)))) = [] \<and>
   ''blob:0'' \<in> set (object_urls
      (snd (logo_onClear (handleLogoSelect example_file (form_init, example_world)))))"
  by (simp add: handleLogoSelect_def logo_onClear_def createObjectURL_def Let_def
      example_world_def number_examples)

text \<open>
  Claim C8 as the form implements it: each \<open>onClear\<close> handler resets its file to null and
  its preview to the empty string and touches nothing else, so the object URL created when
  the file was selected stays live.
\<close>

theorem onClear_resets_state_without_revoking:
  "logoFile (fst (logo_onClear (fs, w))) = None \<and>
   logoPreview (fst (logo_onClear (fs, w))) = [] \<and>
   snd (logo_onClear (fs, w)) = w \<and>
   productFile (fst (product_onClear (fs, w))) = None \<and>
   productPreview (fst (product_onClear (fs, w))) = [] \<and>
   snd (product_onClear (fs, w)) = w \<and>
   logoPreview (fst (handleLogoSelect file (fs, w))) \<in>
     set (object_urls (snd (logo_onClear (handleLogoSelect file (fs, w))))) \<and>
   productPreview (fst (handleProductSelect file (fs, w))) \<in>
     set (object_urls (snd (product_onClear (handleProductSelect file (fs, w)))))"
  by (simp add: handleLogoSelect_def handleProductSelect_def logo_onClear_def product_onClear_def
      createObjectURL_def Let_def)

section \<open>The projects table\<close>

lemma projects_kept_refl: "projects_kept 0 w w"
  by (simp add: projects_kept_def)

lemma projects_kept_trans:
  assumes "projects_kept n w w'" "projects_kept m w' w''"
  shows "projects_kept (n + m) w w''"
proof -
  from assms(1) obtain new cs where
    a: "projects (remote w') = projects (remote w) @ new" "length new \<le> n"
       "calls w' = calls w @ cs" "filter (modifies ''projects'') cs = []"
       "length (filter (\<lambda>c. c = TableInsert ''projects'') cs) \<le> n"
    unfolding projects_kept_def by blast
  from assms(2) obtain new' cs' where
    b: "projects (remote w'') = projects (remote w') @ new'" "length new' \<le> m"
       "calls w'' = calls w' @ cs'" "filter (modifies ''projects'') cs' = []"
       "length (filter (\<lambda>c. c = TableInsert ''projects'') cs') \<le> m"
    unfolding projects_kept_def by blast
  have "projects (remote w'') = projects (remote w) @ (new @ new')"
    "length (new @ new') \<le> n + m"
    "calls w'' = calls w @ (cs @ cs')"
    "filter (modifies ''projects'') (cs @ cs') = []"
    "length (filter (\<lambda>c. c = TableInsert ''projects'') (cs @ cs')) \<le> n + m"
    using a b by simp_all
  then show ?thesis unfolding projects_kept_def by blast
qed

lemma projects_kept_mono: "projects_kept n w w' \<Longrightarrow> n \<le> m \<Longrightarrow> projects_kept m w w'"
  unfolding projects_kept_def by (meson le_trans)

lemma projects_keptI:
  assumes "projects (remote w') = projects (remote w) @ new" "length new \<le> n"
    "calls w' = calls w @ cs" "filter (modifies ''projects'') cs = []"
    "length (filter (\<lambda>c. c = TableInsert ''projects'') cs) \<le> n"
  shows "projects_kept n w w'"
  using assms unfolding projects_kept_def by blast

lemma kept_loadProjects: "projects_kept 0 w (snd (loadProjects e (ds, w)))"
  by (rule projects_keptI [where new = "[]" and cs = "[TableSelect ''projects'']"])
    (simp_all add: loadProjects_def Let_def call_def console_error_def modifies_def split: option.splits)

lemma kept_handleProjectCreated: "projects_kept 0 w (snd (handleProjectCreated e (ds, w)))"
  by (simp add: handleProjectCreated_def kept_loadProjects)

lemma kept_loadCreatives: "projects_kept 0 w (snd (loadCreatives e p (gs, w)))"
  by (rule projects_keptI [where new = "[]" and cs = "[TableSelect ''generated_creatives'']"])
    (simp_all add: loadCreatives_def Let_def call_def console_error_def modifies_def split: option.splits)

lemma projects_generateCreatives:
  "projects (remote (snd (generateCreatives env p (gs, w)))) = projects (remote w)"
  by (auto simp: generate_defs delete_creatives_def insert_creatives_def
      split: option.splits function_response.splits)

lemma kept_generateCreatives: "projects_kept 0 w (snd (generateCreatives env p (gs, w)))"
  by (rule projects_keptI [where new = "[]", OF _ _ calls_generateCreatives])
    (simp_all add: projects_generateCreatives modifies_def
      split: option.splits function_response.splits)

lemma remote_downloadAsZip: "remote (snd (downloadAsZip env p (gs, w))) = remote w"
  by (auto simp: downloadAsZip_def downloadAsZip_try_def Let_def fetch_images_eq
      createObjectURL_def revokeObjectURL_def alert_def console_error_def split: option.splits)

lemma kept_downloadAsZip: "projects_kept 0 w (snd (downloadAsZip env p (gs, w)))"
  by (rule projects_keptI [where new = "[]", OF _ _ calls_downloadAsZip])
    (simp_all add: remote_downloadAsZip modifies_def comp_def)

lemma kept_form_handlers:
  "projects_kept 0 w (snd (handleLogoSelect file (fs, w)))"
  "projects_kept 0 w (snd (handleProductSelect file (fs, w)))"
  "projects_kept 0 w (snd (logo_onClear (fs, w)))"
  "projects_kept 0 w (snd (product_onClear (fs, w)))"
  "projects_kept 0 w (handleLogout w)"
  by (simp_all add: projects_kept_def handleLogoSelect_def handleProductSelect_def
      logo_onClear_def product_onClear_def handleLogout_def createObjectURL_def Let_def call_def
      modifies_def)

lemma upload_asset_effect:
  assumes "upload_asset uid now err public file w = (failure, url, w')"
  shows "projects (remote w') = projects (remote w) \<and>
         (\<exists>cs. calls w' = calls w @ cs \<and> filter (modifies ''projects'') cs = [] \<and>
               filter (\<lambda>c. c = TableInsert ''projects'') cs = [])"
  using assms
  by (auto simp: upload_asset_def Let_def call_def modifies_def split: option.splits)

lemma kept_upload_asset:
  assumes "upload_asset uid now err public file w = (failure, url, w')"
  shows "projects_kept 0 w w'"
  using upload_asset_effect [OF assms] unfolding projects_kept_def by auto

lemma kept_call_other:
  "\<not> modifies ''projects'' c \<Longrightarrow> c \<noteq> TableInsert ''projects'' \<Longrightarrow> projects_kept 0 w (call c w)"
  by (rule projects_keptI [where new = "[]" and cs = "[c]"]) (simp_all add: call_def)

lemma kept_insert_project:
  "projects_kept 1 w
     (case err of
        Some e \<Rightarrow> call (TableInsert ''projects'') w
      | None \<Rightarrow> (call (TableInsert ''projects'') w)
                 \<lparr>remote := insert_project row (remote (call (TableInsert ''projects'') w))\<rparr>)"
proof (cases err)
  case None
  show ?thesis
    by (rule projects_keptI [where new = "[row]" and cs = "[TableInsert ''projects'']"])
      (simp_all add: None call_def insert_project_def modifies_def)
next
  case (Some e)
  show ?thesis
    by (rule projects_keptI [where new = "[]" and cs = "[TableInsert ''projects'']"])
      (simp_all add: Some call_def modifies_def)
qed

lemma kept_handleSubmit_try: "projects_kept 1 w (snd (handleSubmit_try env (fs, w)))"
proof (cases "user env")
  case None
  have "projects_kept 0 w (call AuthGetUser w)"
    by (rule kept_call_other) (simp_all add: modifies_def)
  then have "projects_kept 1 w (call AuthGetUser w)"
    by (rule projects_kept_mono) simp
  then show ?thesis
    using None by (simp add: handleSubmit_try_def Let_def)
next
  case (Some uid)
  let ?w1 = "call AuthGetUser w"
  have k1: "projects_kept 0 w ?w1"
    by (rule kept_call_other) (simp_all add: modifies_def)
  obtain f1 u1 w2 where up1:
    "upload_asset uid (now_logo env) (logo_upload_error env) (publicUrl env) (logoFile fs) ?w1 =
       (f1, u1, w2)"
    by (rule prod_cases3)
  have k2: "projects_kept 0 ?w1 w2" by (rule kept_upload_asset [OF up1])
  show ?thesis
  proof (cases f1)
    case (Some e)
    have "projects_kept (0 + 0) w w2" by (rule projects_kept_trans [OF k1 k2])
    then have "projects_kept 1 w w2" by (rule projects_kept_mono) simp
    then show ?thesis
      using \<open>user env = Some uid\<close> up1 Some
      by (simp add: handleSubmit_try_def Let_def)
  next
    case None
    obtain f2 u2 w3 where up2:
      "upload_asset uid (now_product env) (product_upload_error env) (publicUrl env)
         (productFile fs) w2 = (f2, u2, w3)"
      by (rule prod_cases3)
    have k3: "projects_kept 0 w2 w3" by (rule kept_upload_asset [OF up2])
    have k13: "projects_kept 0 w w3"
      using projects_kept_trans [OF projects_kept_trans [OF k1 k2] k3] by simp
    show ?thesis
    proof (cases f2)
      case (Some e)
      have "projects_kept 1 w w3" using k13 by (rule projects_kept_mono) simp
      then show ?thesis
        using \<open>user env = Some uid\<close> up1 up2 None Some
        by (simp add: handleSubmit_try_def Let_def)
    next
      case f2: None
      let ?row = "\<lparr>project_ident = new_ident env, user_id = uid, project_name = form_name fs,
                    brand_name = brandName fs, logo_url = or_null u1,
                    product_image_url = or_null u2, created_at = new_created_at env\<rparr>"
      have "projects_kept (0 + 1) w
        (case project_insert_error env of
           Some e \<Rightarrow> call (TableInsert ''projects'') w3
         | None \<Rightarrow> (call (TableInsert ''projects'') w3)
                 \<lparr>remote := insert_project ?row (remote (call (TableInsert ''projects'') w3))\<rparr>)"
        by (rule projects_kept_trans [OF k13 kept_insert_project])
      moreover have "snd (handleSubmit_try env (fs, w)) =
        (case project_insert_error env of
           Some e \<Rightarrow> call (TableInsert ''projects'') w3
         | None \<Rightarrow> (call (TableInsert ''projects'') w3)
                 \<lparr>remote := insert_project ?row (remote (call (TableInsert ''projects'') w3))\<rparr>)"
        using \<open>user env = Some uid\<close> up1 up2 None f2
        by (simp add: handleSubmit_try_def Let_def split: option.splits)
      ultimately show ?thesis by simp
    qed
  qed
qed

lemma world_handleSubmit:
  "snd (snd (handleSubmit env (fs, w))) =
     snd (handleSubmit_try env (fs\<lparr>form_loading := True, form_error := []\<rparr>, w))"
  by (simp add: handleSubmit_def Let_def split: prod.splits)

lemma kept_handleSubmit: "projects_kept 1 w (snd (snd (handleSubmit env (fs, w))))"
  unfolding world_handleSubmit by (rule kept_handleSubmit_try)

lemma kept_ui_step: "projects_kept (if is_submit a then 1 else 0) w (ui_step w a)"
proof (cases a)
  case (DoSubmit env fs e ds)
  obtain ok fs' w' where r: "handleSubmit env (fs, w) = (ok, fs', w')" by (rule prod_cases3)
  have k: "projects_kept 1 w w'" using kept_handleSubmit [of w env fs] r by simp
  have "projects_kept (1 + 0) w (snd (handleProjectCreated e (ds, w')))"
    by (rule projects_kept_trans [OF k kept_handleProjectCreated])
  with k show ?thesis
    by (cases ok) (simp_all add: DoSubmit r is_submit_def)
qed (simp_all add: is_submit_def kept_loadProjects kept_loadCreatives kept_generateCreatives
      kept_downloadAsZip kept_form_handlers)

lemma kept_ui_run: "projects_kept (length (filter is_submit acts)) w (foldl ui_step w acts)"
proof (induction acts arbitrary: w)
  case Nil
  show ?case by (simp add: projects_kept_refl)
next
  case (Cons a acts)
  have "projects_kept ((if is_submit a then 1 else 0) + length (filter is_submit acts)) w
          (foldl ui_step (ui_step w a) acts)"
    by (rule projects_kept_trans [OF kept_ui_step Cons])
  then show ?case by (cases "is_submit a") (simp_all add: add.commute)
qed

text \<open>
  Claim C7 (a project record is immutable in this UI). Over every sequence of actions of
  the dashboard, the form and the generator view, in any component state and whatever the
  outside world answers, the \<open>projects\<close> table keeps its rows unchanged and in place and
  only grows at its end, by at most one row per submit; no update and no delete is issued
  against it, and at most one insert per submit.
\<close>

theorem projects_table_only_grows:
  "(\<exists>new. projects (remote (foldl ui_step w acts)) = projects (remote w) @ new \<and>
          length new \<le> length (filter is_submit acts)) \<and>
   filter (modifies ''projects'') (issued w (foldl ui_step w acts)) = [] \<and>
   length (filter (\<lambda>c. c = TableInsert ''projects'') (issued w (foldl ui_step w acts)))
     \<le> length (filter is_submit acts)"
  using kept_ui_run [of acts w] unfolding projects_kept_def issued_def by auto

end
